theory Spec2Isabelle
  imports Complex_Main "HOL-Library.AList"
begin

section \<open>Values and faults of the Python program\<close>

text \<open>
  The relay (\<^verbatim>\<open>joey/node/proxy_server.py\<close>) handles values decoded from JSON.
  A decoded object is a Python \<^verbatim>\<open>dict\<close>: an association list here, read with
  \<open>map_of\<close> and written with \<open>AList.update\<close> (an existing key keeps its place, a
  new key goes to the end, as in Python). \<open>JNull\<close> is Python's \<^verbatim>\<open>None\<close>.
\<close>

datatype json =
    JNull
  | JBool bool
  | JNum int
  | JFloat rat
  | JStr string
  | JArr "json list"
  | JObj "(string \<times> json) list"

text \<open>
  An exception is a value. \<open>Raised n\<close> is an exception of class \<open>n\<close> raised inside a
  collaborator (the \<^verbatim>\<open>requests\<close> library, the JSON decoder, the encryption
  provider, the persistence layer); all of them derive from \<^verbatim>\<open>Exception\<close>.
  \<open>MethodNotAllowed\<close> is Flask's answer to a request whose method the matched route
  does not list.
\<close>

datatype fault =
    AssertionError
  | KeyError
  | AttributeError
  | TypeError
  | UnboundLocalError
  | Exception string
  | Raised string
  | MethodNotAllowed

text \<open>Python's truth test (\<^verbatim>\<open>if not x\<close>).\<close>

fun truthy :: "json \<Rightarrow> bool" where
  "truthy JNull = False"
| "truthy (JBool b) = b"
| "truthy (JNum n) = (n \<noteq> 0)"
| "truthy (JFloat q) = (q \<noteq> 0)"
| "truthy (JStr s) = (s \<noteq> [])"
| "truthy (JArr xs) = (xs \<noteq> [])"
| "truthy (JObj kv) = (kv \<noteq> [])"

text \<open>\<^verbatim>\<open>d.get(k, default)\<close>: only a dict has \<^verbatim>\<open>get\<close>.\<close>

fun py_get_default :: "json \<Rightarrow> string \<Rightarrow> json \<Rightarrow> fault + json" where
  "py_get_default (JObj kv) k d = Inr (case map_of kv k of None \<Rightarrow> d | Some v \<Rightarrow> v)"
| "py_get_default _ k d = Inl AttributeError"

definition py_get :: "json \<Rightarrow> string \<Rightarrow> fault + json" where
  "py_get j k = py_get_default j k JNull"

text \<open>\<^verbatim>\<open>d[k] = v\<close> on a dict.\<close>

fun py_set :: "json \<Rightarrow> string \<Rightarrow> json \<Rightarrow> json" where
  "py_set (JObj kv) k v = JObj (AList.update k v kv)"
| "py_set j k v = j"

text \<open>\<^verbatim>\<open>len(x)\<close> and the elements a \<^verbatim>\<open>for\<close> loop visits.\<close>

fun py_len :: "json \<Rightarrow> fault + nat" where
  "py_len (JArr xs) = Inr (length xs)"
| "py_len (JStr s) = Inr (length s)"
| "py_len (JObj kv) = Inr (length kv)"
| "py_len _ = Inl TypeError"

fun py_iter :: "json \<Rightarrow> json list" where
  "py_iter (JArr xs) = xs"
| "py_iter (JStr s) = map (\<lambda>c. JStr [c]) s"
| "py_iter (JObj kv) = map (\<lambda>p. JStr (fst p)) kv"
| "py_iter _ = []"

section \<open>The relay and its surroundings\<close>

datatype verb = Get | Post | Patch | Put | Delete

text \<open>
  One call of a \<^verbatim>\<open>requests\<close> function: which function, the URL, and the keyword
  arguments \<^verbatim>\<open>headers\<close>, \<^verbatim>\<open>json\<close> and \<^verbatim>\<open>params\<close> (empty, and \<open>JNull\<close> for
  \<^verbatim>\<open>json\<close>, when the call does not pass them: \<^verbatim>\<open>None\<close> is the default of
  \<^verbatim>\<open>json\<close>). A header value may be Python's \<^verbatim>\<open>None\<close>.
\<close>

record call =
  call_verb :: verb
  call_url :: string
  call_headers :: "(string \<times> string option) list"
  call_json :: json
  call_params :: "(string \<times> string) list"

text \<open>A response: its status code and what \<^verbatim>\<open>response.json()\<close> gives.\<close>

record response =
  status_code :: nat
  resp_json :: "fault + json"

text \<open>What leaves the relay, in order: outbound HTTP calls and calls of the
  encryption provider (plaintext, key).\<close>

datatype event = Request call | Encrypt json json

datatype level = DEBUG | INFO | WARNING | ERROR

datatype log_entry = Log level string | LogExc level fault | LogVal level json

record world =
  trace :: "event list"
  logged :: "log_entry list"

definition log_msg :: "level \<Rightarrow> string \<Rightarrow> world \<Rightarrow> world" where
  "log_msg l m w = w\<lparr>logged := logged w @ [Log l m]\<rparr>"

definition log_exc :: "level \<Rightarrow> fault \<Rightarrow> world \<Rightarrow> world" where
  "log_exc l e w = w\<lparr>logged := logged w @ [LogExc l e]\<rparr>"

definition log_val :: "level \<Rightarrow> json \<Rightarrow> world \<Rightarrow> world" where
  "log_val l v w = w\<lparr>logged := logged w @ [LogVal l v]\<rparr>"

definition emit :: "event \<Rightarrow> world \<Rightarrow> world" where
  "emit e w = w\<lparr>trace := trace w @ [e]\<rparr>"

text \<open>
  What the module reads from outside itself: \<^verbatim>\<open>os.environ\<close>,
  \<^verbatim>\<open>app.config["SERVER_IO"]\<close> (absent, or an object whose \<^verbatim>\<open>cryptor.encrypt\<close> is
  the given function), the network (the answer to a call may depend on everything that
  left the relay before it), and Python's \<^verbatim>\<open>str\<close> as used by the f-strings.
\<close>

record ctx =
  environ :: "string \<Rightarrow> string option"
  server_io :: "(json \<Rightarrow> json \<Rightarrow> fault + json) option"
  send :: "event list \<Rightarrow> call \<Rightarrow> fault + response"
  py_str :: "json \<Rightarrow> string"

text \<open>
  The inbound Flask request: method, headers, query arguments, and what
  \<^verbatim>\<open>request.get_json()\<close> gives (\<open>Inr JNull\<close> when there is no JSON body).
\<close>

record request =
  req_method :: string
  req_headers :: "(string \<times> string) list"
  req_args :: "(string \<times> string) list"
  req_json :: "fault + json"

text \<open>How a block of a view function ends: it raises, it returns, or it goes on.\<close>

datatype 'a flow = Raise fault | Return "json option" | Next 'a

definition server_info :: "ctx \<Rightarrow> fault + string" where
  "server_info c =
    (case environ c ''SERVER_URL'' of None \<Rightarrow> Inl KeyError | Some url \<Rightarrow>
     case environ c ''SERVER_PORT'' of None \<Rightarrow> Inl KeyError | Some port \<Rightarrow>
     case environ c ''SERVER_PATH'' of None \<Rightarrow> Inl KeyError | Some path \<Rightarrow>
       Inr (url @ '':'' @ port @ path))"

subsection \<open>Create-task forward (\<^verbatim>\<open>proxy_task\<close>)\<close>

definition organization_id :: "json \<Rightarrow> json" where
  "organization_id organization =
    (case py_get organization ''id'' of Inl f \<Rightarrow> JNull | Inr v \<Rightarrow> v)"

definition key_request :: "ctx \<Rightarrow> string \<Rightarrow> json \<Rightarrow> call" where
  "key_request c url organization =
    \<lparr>call_verb = Get,
     call_url = url @ ''/organization/'' @ py_str c (organization_id organization),
     call_headers = [], call_json = JNull, call_params = []\<rparr>"

definition task_request :: "string \<Rightarrow> string \<Rightarrow> json \<Rightarrow> call" where
  "task_request url auth json_data =
    \<lparr>call_verb = Post, call_url = url @ ''/task'',
     call_headers = [(''Authorization'', Some auth)],
     call_json = json_data, call_params = []\<rparr>"

text \<open>The body of the loop over \<^verbatim>\<open>organizations\<close>, lines 79 to 98. On success it
  gives the updated entry and the new binding of \<^verbatim>\<open>response\<close>.\<close>

definition encrypt_organization ::
  "ctx \<Rightarrow> (json \<Rightarrow> json \<Rightarrow> fault + json) \<Rightarrow> string \<Rightarrow> json \<Rightarrow> world
    \<Rightarrow> (json \<times> response) flow \<times> world" where
  "encrypt_organization c encrypt url organization w =
    (case py_get organization ''input'' of Inl f \<Rightarrow> (Raise f, w) | Inr input \<Rightarrow>
     if \<not> truthy input then (Return None, log_msg ERROR ''No input for organization?!'' w)
     else
       let w1 = log_msg DEBUG (''retreiving public key of org=''
                  @ py_str c (organization_id organization)) w;
           w2 = emit (Request (key_request c url organization)) w1
       in
       case send c (trace w1) (key_request c url organization) of
         Inl f \<Rightarrow> (Raise f, w2)
       | Inr response \<Rightarrow>
       case resp_json response of Inl f \<Rightarrow> (Raise f, w2) | Inr body \<Rightarrow>
       case py_get body ''public_key'' of Inl f \<Rightarrow> (Raise f, w2) | Inr public_key \<Rightarrow>
       let w3 = emit (Encrypt input public_key) w2 in
       case encrypt input public_key of Inl f \<Rightarrow> (Raise f, w3) | Inr encrypted_input \<Rightarrow>
         (Next (py_set organization ''input'' encrypted_input, response),
          log_msg DEBUG (''Input succesfully encrypted for organization ''
              @ py_str c (organization_id organization) @ ''!'')
            (log_msg DEBUG (''should be unreadable='' @ py_str c encrypted_input) w3)))"

text \<open>The loop: \<^verbatim>\<open>encrypted_organizations\<close> and \<^verbatim>\<open>response\<close> are carried along.\<close>

fun encrypt_organizations ::
  "ctx \<Rightarrow> (json \<Rightarrow> json \<Rightarrow> fault + json) \<Rightarrow> string \<Rightarrow> json list
    \<Rightarrow> json list \<times> response option \<Rightarrow> world
    \<Rightarrow> (json list \<times> response option) flow \<times> world" where
  "encrypt_organizations c encrypt url [] st w = (Next st, w)"
| "encrypt_organizations c encrypt url (organization # rest) st w =
    (case encrypt_organization c encrypt url organization w of
       (Raise f, w') \<Rightarrow> (Raise f, w')
     | (Return v, w') \<Rightarrow> (Return v, w')
     | (Next (organization', response), w') \<Rightarrow>
         encrypt_organizations c encrypt url rest (fst st @ [organization'], Some response) w')"

text \<open>Line 76: the number of organizations is logged before the loop.\<close>

definition log_count :: "ctx \<Rightarrow> nat \<Rightarrow> world \<Rightarrow> world" where
  "log_count c n_organizations w =
    log_msg DEBUG (py_str c (JNum (int n_organizations))
      @ '' organizations, attemping to encrypt'') w"

text \<open>\<^verbatim>\<open>return jsonify(response.json())\<close>, where \<^verbatim>\<open>response\<close> may be unbound.\<close>

definition reply :: "response option \<Rightarrow> world \<Rightarrow> (fault + json option) \<times> world" where
  "reply response w =
    (case response of None \<Rightarrow> (Inl UnboundLocalError, w) | Some r \<Rightarrow>
     case resp_json r of Inl f \<Rightarrow> (Inl f, w) | Inr j \<Rightarrow> (Inr (Some j), w))"

definition proxy_task :: "ctx \<Rightarrow> request \<Rightarrow> world \<Rightarrow> (fault + json option) \<times> world" where
  "proxy_task c rq w =
    (case server_io c of None \<Rightarrow> (Inl AssertionError, w) | Some encrypt \<Rightarrow>
     case server_info c of Inl f \<Rightarrow> (Inl f, w) | Inr url \<Rightarrow>
     case map_of (req_headers rq) ''Authorization'' of None \<Rightarrow> (Inl KeyError, w) | Some auth \<Rightarrow>
     case req_json rq of Inl f \<Rightarrow> (Inl f, w) | Inr unencrypted \<Rightarrow>
     case py_get unencrypted ''organizations'' of Inl f \<Rightarrow> (Inl f, w) | Inr organizations \<Rightarrow>
     if \<not> truthy organizations then (Inr None, log_msg ERROR ''No organizations found?!'' w)
     else
     case py_len organizations of Inl f \<Rightarrow> (Inl f, w) | Inr n_organizations \<Rightarrow>
     case encrypt_organizations c encrypt url (py_iter organizations) ([], None)
            (log_count c n_organizations w) of
       (Raise f, w') \<Rightarrow> (Inl f, w')
     | (Return v, w') \<Rightarrow> (Inr v, w')
     | (Next (encrypted_organizations, response), w') \<Rightarrow>
         let json_data = py_set unencrypted ''organizations'' (JArr encrypted_organizations) in
         case send c (trace w') (task_request url auth json_data) of
           Inl e \<Rightarrow>
             reply response
               (log_exc DEBUG e
                 (log_msg ERROR ''Proxyserver was unable to post new task!''
                   (emit (Request (task_request url auth json_data)) w')))
         | Inr r \<Rightarrow> reply (Some r) (emit (Request (task_request url auth json_data)) w'))"

subsection \<open>Result fetch forward (\<^verbatim>\<open>proxy_results\<close>)\<close>

definition result_request :: "ctx \<Rightarrow> string \<Rightarrow> string \<Rightarrow> int \<Rightarrow> call" where
  "result_request c url auth result_id =
    \<lparr>call_verb = Get, call_url = url @ ''/result/'' @ py_str c (JNum result_id),
     call_headers = [(''Authorization'', Some auth)],
     call_json = JNull, call_params = []\<rparr>"

definition proxy_results :: "ctx \<Rightarrow> request \<Rightarrow> int \<Rightarrow> world \<Rightarrow> (fault + json option) \<times> world" where
  "proxy_results c rq result_id w =
    (case server_info c of Inl f \<Rightarrow> (Inl f, w) | Inr url \<Rightarrow>
     case map_of (req_headers rq) ''Authorization'' of None \<Rightarrow> (Inl KeyError, w) | Some auth \<Rightarrow>
     case send c (trace w) (result_request c url auth result_id) of
       Inl e \<Rightarrow>
         reply None
           (log_exc DEBUG e
             (log_msg ERROR ''Proxyserver was unable to retrieve results!''
               (emit (Request (result_request c url auth result_id)) w)))
     | Inr r \<Rightarrow> reply (Some r) (emit (Request (result_request c url auth result_id)) w))"

subsection \<open>Generic forward (\<^verbatim>\<open>proxy\<close>)\<close>

text \<open>\<^verbatim>\<open>str.lower()\<close> on the method name, a token of ASCII letters.\<close>

definition lower_char :: "char \<Rightarrow> char" where
  "lower_char ch =
    (let n = (of_char ch :: nat) in if 65 \<le> n \<and> n \<le> 90 then char_of (n + 32) else ch)"

definition lower :: "string \<Rightarrow> string" where
  "lower s = map lower_char s"

text \<open>The dict of line 145 and its \<^verbatim>\<open>.get(method_name, requests.get)\<close>.\<close>

definition requests_method :: "string \<Rightarrow> verb" where
  "requests_method method_name =
    (case map_of [(''get'', Get), (''post'', Post), (''patch'', Patch),
                  (''put'', Put), (''delete'', Delete)] method_name of
       None \<Rightarrow> Get | Some m \<Rightarrow> m)"

definition forward_request ::
  "verb \<Rightarrow> string \<Rightarrow> json \<Rightarrow> (string \<times> string) list \<Rightarrow> string option \<Rightarrow> call" where
  "forward_request m api_url body args auth =
    \<lparr>call_verb = m, call_url = api_url,
     call_headers = [(''Authorization'', auth)],
     call_json = body, call_params = args\<rparr>"

text \<open>Lines 179 to 181: a status above 200 is logged, with the body's \<^verbatim>\<open>msg\<close>.\<close>

definition log_status :: "ctx \<Rightarrow> response \<Rightarrow> world \<Rightarrow> unit flow \<times> world" where
  "log_status c response w =
    (if status_code response > 200 then
       let w1 = log_msg ERROR (''server response code ''
                  @ py_str c (JNum (int (status_code response)))) w in
       case resp_json response of Inl f \<Rightarrow> (Raise f, w1) | Inr body \<Rightarrow>
       case py_get_default body ''msg'' (JStr ''no description...'') of
         Inl f \<Rightarrow> (Raise f, w1)
       | Inr m \<Rightarrow> (Next (), log_val DEBUG m w1)
     else (Next (), w))"

definition proxy :: "ctx \<Rightarrow> string \<Rightarrow> request \<Rightarrow> world \<Rightarrow> (fault + json option) \<times> world" where
  "proxy c central_server_path rq w =
    (case server_info c of Inl f \<Rightarrow> (Inl f, w) | Inr url \<Rightarrow>
     let method_name = lower (req_method rq);
         method = requests_method method_name;
         auth = map_of (req_headers rq) ''Authorization'';
         auth_found = (auth \<noteq> None);
         w1 = (if auth_found then w
               else log_msg INFO ''No authorization header found, this could lead to errors'' w);
         w2 = log_msg DEBUG (''method = '' @ method_name @ '', auth = ''
                @ py_str c (JBool auth_found)) w1;
         api_url = url @ ''/'' @ central_server_path;
         w3 = log_msg INFO (method_name @ '' | '' @ api_url) w2
     in
     case req_json rq of
       Inl e \<Rightarrow>
         (Inr None,
          log_exc DEBUG e (log_msg ERROR ''Proxyserver was unable to retreive endpoint...'' w3))
     | Inr body \<Rightarrow>
     case send c (trace w3) (forward_request method api_url body (req_args rq) auth) of
       Inl e \<Rightarrow>
         (Inr None,
          log_exc DEBUG e
            (log_msg ERROR ''Proxyserver was unable to retreive endpoint...''
              (emit (Request (forward_request method api_url body (req_args rq) auth)) w3)))
     | Inr response \<Rightarrow>
     case log_status c response
            (emit (Request (forward_request method api_url body (req_args rq) auth)) w3) of
       (Raise f, w4) \<Rightarrow> (Inl f, w4)
     | (Return v, w4) \<Rightarrow> (Inr v, w4)
     | (Next u, w4) \<Rightarrow> reply (Some response) w4)"

subsection \<open>The routes\<close>

text \<open>
  The \<^verbatim>\<open>methods\<close> argument of each \<^verbatim>\<open>@app.route\<close>: lines 37, 115 and 136. The
  generic route gives none.
\<close>

definition proxy_task_methods :: "string list option" where
  "proxy_task_methods = Some [''POST'']"

definition proxy_results_methods :: "string list option" where
  "proxy_results_methods = Some [''GET'']"

definition proxy_methods :: "string list option" where
  "proxy_methods = None"

text \<open>
  Flask's rule for a route: without \<^verbatim>\<open>methods\<close> it listens for \<^verbatim>\<open>GET\<close> only, and a
  route that lists \<^verbatim>\<open>GET\<close> also takes \<^verbatim>\<open>HEAD\<close>. A request whose path matches but
  whose method is not taken never reaches the view: Flask answers \<^verbatim>\<open>OPTIONS\<close> by itself
  (an empty response) and every other method with 405.
\<close>

definition view_methods :: "string list option \<Rightarrow> string list" where
  "view_methods ms =
    (let given = (case ms of None \<Rightarrow> [''GET''] | Some l \<Rightarrow> l)
     in given @ (if ''GET'' \<in> set given then [''HEAD''] else []))"

definition route ::
  "string list option \<Rightarrow> (request \<Rightarrow> world \<Rightarrow> (fault + json option) \<times> world)
    \<Rightarrow> request \<Rightarrow> world \<Rightarrow> (fault + json option) \<times> world" where
  "route ms view rq w =
    (if req_method rq \<in> set (view_methods ms) then view rq w
     else if req_method rq = ''OPTIONS'' then (Inr None, w)
     else (Inl MethodNotAllowed, w))"

definition generic_endpoint ::
  "ctx \<Rightarrow> string \<Rightarrow> request \<Rightarrow> world \<Rightarrow> (fault + json option) \<times> world" where
  "generic_endpoint c central_server_path = route proxy_methods (proxy c central_server_path)"

definition task_endpoint :: "ctx \<Rightarrow> request \<Rightarrow> world \<Rightarrow> (fault + json option) \<times> world" where
  "task_endpoint c = route proxy_task_methods (proxy_task c)"

definition result_endpoint ::
  "ctx \<Rightarrow> int \<Rightarrow> request \<Rightarrow> world \<Rightarrow> (fault + json option) \<times> world" where
  "result_endpoint c result_id = route proxy_results_methods (\<lambda>rq. proxy_results c rq result_id)"

section \<open>The server: endpoint protection\<close>

text \<open>
  \<^verbatim>\<open>only_for\<close> (\<^verbatim>\<open>vantage6/server/resource/__init__.py\<close>) wraps a view. A user
  or node is a row of the \<^verbatim>\<open>Authenticatable\<close> table: its id, its \<^verbatim>\<open>type\<close>, the
  name it is logged under, and when it was last seen.
\<close>

record authenticatable =
  a_id :: int
  a_type :: string
  a_label :: string
  last_seen :: nat

text \<open>
  What the decorator reads from outside the module: the persistence layer
  (\<^verbatim>\<open>db.Authenticatable.get\<close> and \<^verbatim>\<open>save\<close>, over a database of type \<open>'db\<close>), the
  clock, Python's \<^verbatim>\<open>str\<close>, and the URL and method of the request.
\<close>

record 'db sctx =
  auth_get :: "'db \<Rightarrow> json \<Rightarrow> fault + authenticatable"
  auth_save :: "'db \<Rightarrow> authenticatable \<Rightarrow> fault + 'db"
  utcnow :: nat
  s_str :: "json \<Rightarrow> string"
  request_url :: string
  request_method :: string

text \<open>Flask's \<^verbatim>\<open>g\<close>, the database and the log.\<close>

record 'db served =
  g_type :: "json option"
  g_user :: "authenticatable option"
  g_node :: "authenticatable option"
  g_container :: "json option"
  db :: 'db
  s_logged :: "log_entry list"

definition s_log :: "level \<Rightarrow> string \<Rightarrow> 'db served \<Rightarrow> 'db served" where
  "s_log l m s = s\<lparr>s_logged := s_logged s @ [Log l m]\<rparr>"

text \<open>\<^verbatim>\<open>x[k]\<close> with a string key.\<close>

fun py_item :: "json \<Rightarrow> string \<Rightarrow> fault + json" where
  "py_item (JObj kv) k = (case map_of kv k of None \<Rightarrow> Inl KeyError | Some v \<Rightarrow> Inr v)"
| "py_item _ k = Inl TypeError"

definition get_and_update_authenticatable_info ::
  "'db sctx \<Rightarrow> json \<Rightarrow> 'db \<Rightarrow> (fault + authenticatable) \<times> 'db" where
  "get_and_update_authenticatable_info p auth_id d =
    (case auth_get p d auth_id of Inl f \<Rightarrow> (Inl f, d) | Inr auth \<Rightarrow>
     case auth_save p d (auth\<lparr>last_seen := utcnow p\<rparr>) of
       Inl f \<Rightarrow> (Inl f, d)
     | Inr d' \<Rightarrow> (Inr (auth\<lparr>last_seen := utcnow p\<rparr>), d'))"

text \<open>
  The inner \<^verbatim>\<open>decorator\<close>, lines 179 to 223, run on the identity and the claims of
  a token that \<^verbatim>\<open>jwt_required\<close> has verified. \<open>fn\<close> is the wrapped view.
\<close>

definition only_for ::
  "string list \<Rightarrow> 'db sctx \<Rightarrow> ('db served \<Rightarrow> (fault + 'r) \<times> 'db served)
    \<Rightarrow> json \<Rightarrow> (string \<times> json) list \<Rightarrow> 'db served \<Rightarrow> (fault + 'r) \<times> 'db served" where
  "only_for types p fn identity claims s =
    (case map_of claims ''client_type'' of None \<Rightarrow> (Inl KeyError, s) | Some t \<Rightarrow>
     if t \<notin> set (map JStr types) then
       (Inl (Exception (s_str p t @ ''s are not allowed to access '' @ request_url p
               @ '' ('' @ request_method p @ '')'')),
        s_log WARNING (s_str p t @ ''s are not allowed to access '' @ request_url p
               @ '' ('' @ request_method p @ '')'') (s\<lparr>g_type := Some t\<rparr>))
     else
     let s2 = s\<lparr>g_type := Some t, g_user := None, g_node := None, g_container := None\<rparr> in
     if t = JStr ''user'' then
       (case get_and_update_authenticatable_info p identity (db s2) of
          (Inl f, d) \<Rightarrow> (Inl f, s2\<lparr>db := d\<rparr>)
        | (Inr user, d) \<Rightarrow>
            if JStr (a_type user) \<noteq> t then (Inl AssertionError, s2\<lparr>db := d, g_user := Some user\<rparr>)
            else fn (s_log DEBUG (''Received request from user '' @ a_label user @ '' (''
                       @ s_str p (JNum (a_id user)) @ '')'')
                     (s2\<lparr>db := d, g_user := Some user\<rparr>)))
     else if t = JStr ''node'' then
       (case get_and_update_authenticatable_info p identity (db s2) of
          (Inl f, d) \<Rightarrow> (Inl f, s2\<lparr>db := d\<rparr>)
        | (Inr node, d) \<Rightarrow>
            if JStr (a_type node) \<noteq> t then (Inl AssertionError, s2\<lparr>db := d, g_node := Some node\<rparr>)
            else fn (s_log DEBUG (''Received request from node '' @ a_label node @ '' (''
                       @ s_str p (JNum (a_id node)) @ '')'')
                     (s2\<lparr>db := d, g_node := Some node\<rparr>)))
     else if t = JStr ''container'' then
       (case py_item identity ''node_id'' of
          Inl f \<Rightarrow> (Inl f, s2\<lparr>g_container := Some identity\<rparr>)
        | Inr node_id \<Rightarrow>
        case py_item identity ''task_id'' of
          Inl f \<Rightarrow> (Inl f, s2\<lparr>g_container := Some identity\<rparr>)
        | Inr task_id \<Rightarrow>
            fn (s_log DEBUG (''Received request from container with node id ''
                   @ s_str p node_id @ '' and task id '' @ s_str p task_id)
                 (s2\<lparr>g_container := Some identity\<rparr>)))
     else (Inl (Exception (''Unknown entity: '' @ s_str p t)), s2))"

text \<open>The aliases of lines 249 to 252.\<close>

definition with_user_or_node where "with_user_or_node = only_for [''user'', ''node'']"
definition with_user where "with_user = only_for [''user'']"
definition with_node where "with_node = only_for [''node'']"
definition with_container where "with_container = only_for [''container'']"

section \<open>The server: permissions\<close>

text \<open>
  Modelled from the spec: the enumerations \<^verbatim>\<open>Scope\<close> and \<^verbatim>\<open>Operation\<close> and the
  class \<^verbatim>\<open>Rule\<close> of \<^verbatim>\<open>vantage6.server.model.rule\<close>, which \<^verbatim>\<open>user.py\<close> imports and
  the sources do not hold. The spec gives the scopes Global, Organization, Collaboration,
  Own, the operations Create, Read, Update, Delete, and a rule as the triple of a
  resource, a scope and an operation. A rule is a row of the catalog, so it has its row id.
\<close>

datatype scope = Global | Organization | Collaboration | Own

datatype operation = OpCreate | OpRead | OpUpdate | OpDelete

record rule =
  rule_id :: nat
  rule_name :: string
  rule_scope :: scope
  rule_operation :: operation

record role =
  role_name :: string
  role_rules :: "rule list"

record user =
  user_rules :: "rule list"
  user_roles :: "role list"

definition triple :: "rule \<Rightarrow> string \<times> scope \<times> operation" where
  "triple r = (rule_name r, rule_scope r, rule_operation r)"

text \<open>
  Modelled from the spec: \<^verbatim>\<open>Rule.get_by_\<close> (here \<open>get_by\<close>), which \<^verbatim>\<open>User.can\<close> calls and the sources
  do not hold. The spec describes it as the rule-catalog query
  \<^verbatim>\<open>ruleExists(resource, scope, operation) -> Rule | none\<close>: the catalog's rule with
  exactly that resource, scope and operation, or none.
\<close>

definition get_by :: "rule list \<Rightarrow> string \<Rightarrow> scope \<Rightarrow> operation \<Rightarrow> rule option" where
  "get_by catalog name scope operation =
    find (\<lambda>r. rule_name r = name \<and> rule_scope r = scope \<and> rule_operation r = operation) catalog"

text \<open>\<^verbatim>\<open>rule in rules\<close>, where \<^verbatim>\<open>rule\<close> may be \<^verbatim>\<open>None\<close> and \<^verbatim>\<open>rules\<close> holds rules.\<close>

definition py_in :: "rule option \<Rightarrow> rule list \<Rightarrow> bool" where
  "py_in rule rules = (case rule of None \<Rightarrow> False | Some r \<Rightarrow> r \<in> set rules)"

text \<open>\<^verbatim>\<open>User.can\<close>, lines 318 to 320 of \<^verbatim>\<open>vantage6/server/model/user.py\<close>.\<close>

definition can :: "rule list \<Rightarrow> user \<Rightarrow> string \<Rightarrow> scope \<Rightarrow> operation \<Rightarrow> bool" where
  "can catalog self resource scope operation =
    (let rule = get_by catalog resource scope operation in
     py_in rule (user_rules self) \<or> (\<exists>role \<in> set (user_roles self). py_in rule (role_rules role)))"

text \<open>The spec's \<open>effectiveRules\<close>: the direct rules and the rules of every role.\<close>

definition effective_rules :: "user \<Rightarrow> rule set" where
  "effective_rules u = set (user_rules u) \<union> (\<Union>role \<in> set (user_roles u). set (role_rules role))"

section \<open>Notions used to state the properties\<close>

text \<open>The outbound HTTP calls among the events, in order.\<close>

fun calls :: "event list \<Rightarrow> call list" where
  "calls [] = []"
| "calls (Request cl # es) = cl # calls es"
| "calls (Encrypt i k # es) = calls es"

text \<open>
  The \<^verbatim>\<open>input\<close> of an entry of \<^verbatim>\<open>organizations\<close>, when the entry is an object that
  has one. An entry lacks its input when there is none; its input is usable when it is
  there and passes Python's truth test.
\<close>

fun input_of :: "json \<Rightarrow> json option" where
  "input_of (JObj kv) = map_of kv ''input''"
| "input_of _ = None"

definition lacks_input :: "json \<Rightarrow> bool" where
  "lacks_input e = (input_of e = None)"

definition usable_input :: "json \<Rightarrow> bool" where
  "usable_input e = (case input_of e of None \<Rightarrow> False | Some v \<Rightarrow> truthy v)"

text \<open>
  What lines 88 to 91 compute for \<^verbatim>\<open>public_key\<close> when the call \<open>cl\<close> is made after
  the events \<open>h\<close>: a fault when the call raises, when the body is not JSON, or when the
  body is not an object; otherwise the object's \<^verbatim>\<open>public_key\<close>, or \<open>JNull\<close> when it
  has none.
\<close>

definition public_key_of :: "ctx \<Rightarrow> event list \<Rightarrow> call \<Rightarrow> fault + json" where
  "public_key_of c h cl =
    (case send c h cl of Inl f \<Rightarrow> Inl f | Inr response \<Rightarrow>
     case resp_json response of Inl f \<Rightarrow> Inl f | Inr body \<Rightarrow> py_get body ''public_key'')"

section \<open>Concrete instances\<close>

text \<open>Python's \<^verbatim>\<open>str\<close> on the values the instances format.\<close>

fun str_nat :: "nat \<Rightarrow> string" where
  "str_nat n =
    (if n < 10 then [char_of (48 + n)] else str_nat (n div 10) @ [char_of (48 + n mod 10)])"

definition demo_str :: "json \<Rightarrow> string" where
  "demo_str j =
    (case j of
       JNull \<Rightarrow> ''None''
     | JBool b \<Rightarrow> (if b then ''True'' else ''False'')
     | JNum n \<Rightarrow> (if n < 0 then ''-'' @ str_nat (nat (- n)) else str_nat (nat n))
     | JStr s \<Rightarrow> s
     | _ \<Rightarrow> ''...'')"

definition demo_environ :: "string \<Rightarrow> string option" where
  "demo_environ =
    map_of [(''SERVER_URL'', ''http://server''), (''SERVER_PORT'', ''5000''),
            (''SERVER_PATH'', ''/api'')]"

text \<open>A stand-in for the encryption provider: it seals the plaintext for the key.\<close>

definition demo_encrypt :: "json \<Rightarrow> json \<Rightarrow> fault + json" where
  "demo_encrypt plaintext key =
    Inr (JStr (''sealed('' @ demo_str plaintext @ '')for('' @ demo_str key @ '')''))"

definition demo_ctx :: "(event list \<Rightarrow> call \<Rightarrow> fault + response) \<Rightarrow> ctx" where
  "demo_ctx net =
    \<lparr>environ = demo_environ, server_io = Some demo_encrypt, send = net, py_str = demo_str\<rparr>"

text \<open>A network on which every call raises.\<close>

definition unreachable :: "event list \<Rightarrow> call \<Rightarrow> fault + response" where
  "unreachable h cl = Inl (Raised ''ConnectionError'')"

text \<open>A coordinator that knows organizations 1 and 2 and accepts tasks.\<close>

definition coordinator :: "event list \<Rightarrow> call \<Rightarrow> fault + response" where
  "coordinator h cl =
    (if call_verb cl = Get \<and> call_url cl = ''http://server:5000/api/organization/1'' then
       Inr \<lparr>status_code = 200,
            resp_json = Inr (JObj [(''id'', JNum 1), (''public_key'', JStr ''pubA'')])\<rparr>
     else if call_verb cl = Get \<and> call_url cl = ''http://server:5000/api/organization/2'' then
       Inr \<lparr>status_code = 200,
            resp_json = Inr (JObj [(''id'', JNum 2), (''public_key'', JStr ''pubB'')])\<rparr>
     else if call_verb cl = Post \<and> call_url cl = ''http://server:5000/api/task'' then
       Inr \<lparr>status_code = 201, resp_json = Inr (JObj [(''id'', JNum 7)])\<rparr>
     else
       Inr \<lparr>status_code = 404, resp_json = Inr (JObj [(''msg'', JStr ''not found'')])\<rparr>)"

definition empty_world :: world where
  "empty_world = \<lparr>trace = [], logged = []\<rparr>"

definition demo_request :: "string \<Rightarrow> json \<Rightarrow> request" where
  "demo_request m body =
    \<lparr>req_method = m, req_headers = [(''Authorization'', ''Bearer t0k'')],
     req_args = [], req_json = Inr body\<rparr>"

text \<open>A network that answers the first call and raises once two events have left the relay.\<close>

definition flaky :: "event list \<Rightarrow> call \<Rightarrow> fault + response" where
  "flaky h cl = (if length h < 2 then coordinator h cl else Inl (Raised ''Timeout''))"

text \<open>Entries of \<^verbatim>\<open>organizations\<close>, a task payload and the request that carries it.\<close>

definition org :: "int \<Rightarrow> json \<Rightarrow> json" where
  "org n i = JObj [(''id'', JNum n), (''input'', i)]"

definition task_payload :: "json list \<Rightarrow> (string \<times> json) list" where
  "task_payload orgs = [(''name'', JStr ''sum''), (''organizations'', JArr orgs)]"

definition task_post :: "json list \<Rightarrow> request" where
  "task_post orgs = demo_request ''POST'' (JObj (task_payload orgs))"

definition bare_get :: request where
  "bare_get =
    \<lparr>req_method = ''GET'', req_headers = [], req_args = [(''page'', ''2'')],
     req_json = Inr JNull\<rparr>"

text \<open>The input of an entry, the key the coordinator holds for it, and its ciphertext
  under the stand-in provider.\<close>

definition demo_inp :: "json \<Rightarrow> json" where
  "demo_inp e = (case input_of e of None \<Rightarrow> JNull | Some v \<Rightarrow> v)"

definition demo_key :: "json \<Rightarrow> json" where
  "demo_key e = (if organization_id e = JNum 1 then JStr ''pubA'' else JStr ''pubB'')"

definition demo_cipher :: "json \<Rightarrow> json" where
  "demo_cipher e =
    JStr (''sealed('' @ demo_str (demo_inp e) @ '')for('' @ demo_str (demo_key e) @ '')'')"

definition get_org :: "string \<Rightarrow> call" where
  "get_org n =
    \<lparr>call_verb = Get, call_url = ''http://server:5000/api/organization/'' @ n,
     call_headers = [], call_json = JNull, call_params = []\<rparr>"

definition org1_response :: response where
  "org1_response =
    \<lparr>status_code = 200,
     resp_json = Inr (JObj [(''id'', JNum 1), (''public_key'', JStr ''pubA'')])\<rparr>"

text \<open>The world once the entry \<open>org 1 (JStr ''a'')\<close> has been processed first, of \<open>n\<close>
  entries.\<close>

definition after_first :: "string \<Rightarrow> world" where
  "after_first n =
    \<lparr>trace = [Request (get_org ''1''), Encrypt (JStr ''a'') (JStr ''pubA'')],
     logged = [Log DEBUG (n @ '' organizations, attemping to encrypt''),
               Log DEBUG ''retreiving public key of org=1'',
               Log DEBUG ''should be unreadable=sealed(a)for(pubA)'',
               Log DEBUG ''Input succesfully encrypted for organization 1!'']\<rparr>"

definition demo_sctx :: "unit sctx" where
  "demo_sctx =
    \<lparr>auth_get = (\<lambda>d i. Inl (Raised ''NoResultFound'')), auth_save = (\<lambda>d a. Inr d),
     utcnow = 0, s_str = demo_str, request_url = ''http://server:5000/api/node'',
     request_method = ''GET''\<rparr>"

definition fresh :: "unit served" where
  "fresh =
    \<lparr>g_type = None, g_user = None, g_node = None, g_container = None, db = (), s_logged = []\<rparr>"

definition view_task :: rule where
  "view_task = \<lparr>rule_id = 1, rule_name = ''task'', rule_scope = Organization, rule_operation = OpRead\<rparr>"

definition view_task_global :: rule where
  "view_task_global = \<lparr>rule_id = 2, rule_name = ''task'', rule_scope = Global, rule_operation = OpRead\<rparr>"

definition create_task :: rule where
  "create_task = \<lparr>rule_id = 3, rule_name = ''task'', rule_scope = Organization, rule_operation = OpCreate\<rparr>"

definition demo_catalog :: "rule list" where
  "demo_catalog = [view_task, view_task_global, create_task]"

definition researcher :: user where
  "researcher =
    \<lparr>user_rules = [view_task],
     user_roles = [\<lparr>role_name = ''submitter'', role_rules = [create_task]\<rparr>]\<rparr>"

section \<open>Properties\<close>

subsection \<open>Evaluating the instances\<close>

lemma demo_ctx_sel:
  "send (demo_ctx net) = net" "py_str (demo_ctx net) = demo_str"
  "server_io (demo_ctx net) = Some demo_encrypt" "environ (demo_ctx net) = demo_environ"
  by (simp_all add: demo_ctx_def)

lemma demo_server_info: "server_info (demo_ctx net) = Inr ''http://server:5000/api''"
  by (simp add: server_info_def demo_ctx_sel demo_environ_def)

lemma demo_str_nums:
  "demo_str (JNum 1) = ''1''" "demo_str (JNum 2) = ''2''" "demo_str (JNum 3) = ''3''"
  "demo_str (JNum 42) = ''42''"
  by code_simp+

lemma demo_str_simps:
  "demo_str JNull = ''None''" "demo_str (JStr s) = s"
  "demo_str (JBool True) = ''True''" "demo_str (JBool False) = ''False''"
  by (simp_all add: demo_str_def)

lemma demo_count:
  "demo_str (JNum (int 2)) = ''2''" "demo_str (JNum (int 3)) = ''3''"
  by (simp_all add: demo_str_nums)

lemma lower_GET: "lower ''GET'' = ''get''"
  by code_simp

lemma org_simps:
  "input_of (org n i) = Some i" "organization_id (org n i) = JNum n"
  "demo_inp (org n i) = i"
  "py_set (org n i) ''input'' x = org n x"
  by (simp_all add: org_def organization_id_def py_get_def demo_inp_def)

lemma key_request_org:
  "key_request (demo_ctx net) ''http://server:5000/api'' (org 1 i) = get_org ''1''"
  "key_request (demo_ctx net) ''http://server:5000/api'' (org 2 i) = get_org ''2''"
  "key_request (demo_ctx net) ''http://server:5000/api'' (org 3 i) = get_org ''3''"
  by (simp_all add: key_request_def org_simps demo_ctx_sel demo_str_nums get_org_def)

lemma coordinator_keys:
  "public_key_of (demo_ctx coordinator) h (get_org ''1'') = Inr (JStr ''pubA'')"
  "public_key_of (demo_ctx coordinator) h (get_org ''2'') = Inr (JStr ''pubB'')"
  "public_key_of (demo_ctx coordinator) h (get_org ''3'') = Inr JNull"
  by (simp_all add: public_key_of_def demo_ctx_sel coordinator_def get_org_def py_get_def)

lemma task_post_sel:
  "req_json (task_post orgs) = Inr (JObj (task_payload orgs))"
  "map_of (req_headers (task_post orgs)) ''Authorization'' = Some ''Bearer t0k''"
  "map_of (task_payload orgs) ''organizations'' = Some (JArr orgs)"
  by (simp_all add: task_post_def demo_request_def task_payload_def)

lemma nets_org1:
  "coordinator [] (get_org ''1'') = Inr org1_response"
  "flaky [] (get_org ''1'') = Inr org1_response"
  by (simp_all add: flaky_def coordinator_def get_org_def org1_response_def)

lemma flaky_later:
  "public_key_of (demo_ctx flaky) (trace (after_first s)) cl = Inl (Raised ''Timeout'')"
  by (simp add: public_key_of_def demo_ctx_sel flaky_def after_first_def)

lemma first_entry_done:
  assumes "net [] (get_org ''1'') = Inr org1_response" "demo_str (JNum (int n)) = s"
  shows "encrypt_organizations (demo_ctx net) demo_encrypt ''http://server:5000/api''
            [org 1 (JStr ''a'')] ([], None) (log_count (demo_ctx net) n empty_world)
       = (Next ([org 1 (JStr ''sealed(a)for(pubA)'')], Some org1_response), after_first s)"
  using assms
  by (simp add: encrypt_organization_def key_request_def organization_id_def org_def
      get_org_def demo_ctx_sel log_count_def log_msg_def emit_def empty_world_def py_get_def
      org1_response_def demo_encrypt_def demo_str_simps demo_str_nums after_first_def)

lemmas relay_eval =
  proxy_task_def demo_ctx_sel demo_server_info task_post_def demo_request_def
  task_payload_def org_def py_get_def log_count_def demo_str_nums encrypt_organization_def
  organization_id_def key_request_def task_request_def coordinator_def demo_encrypt_def
  emit_def log_msg_def log_exc_def empty_world_def demo_str_simps get_org_def reply_def

subsection \<open>The loop of the create-task forward\<close>

lemma calls_append: "calls (xs @ ys) = calls xs @ calls ys"
  by (induction xs rule: calls.induct) auto

lemma trace_log [simp]: "trace (log_msg l m w) = trace w" "trace (log_exc l e w) = trace w"
  "trace (log_val l v w) = trace w" "trace (log_count c n w) = trace w"
  by (simp_all add: log_msg_def log_exc_def log_val_def log_count_def)

lemma trace_emit [simp]: "trace (emit e w) = trace w @ [e]"
  by (simp add: emit_def)

lemma step_unusable:
  assumes "\<not> usable_input e"
  shows "encrypt_organization c enc url e w = (Raise AttributeError, w)
       \<or> encrypt_organization c enc url e w = (Return None, log_msg ERROR ''No input for organization?!'' w)"
  using assms
  by (cases e) (auto simp: encrypt_organization_def usable_input_def py_get_def split: option.splits)

lemma step_lookup_fails:
  assumes "input_of e = Some i" "truthy i"
    and "public_key_of c (trace w) (key_request c url e) = Inl f"
  shows "encrypt_organization c enc url e w =
    (Raise f, emit (Request (key_request c url e))
       (log_msg DEBUG (''retreiving public key of org='' @ py_str c (organization_id e)) w))"
  using assms
  by (cases e)
     (auto simp: encrypt_organization_def public_key_of_def py_get_def Let_def
           split: option.splits sum.splits)

lemma step_encrypt_fails:
  assumes "input_of e = Some i" "truthy i"
    and "public_key_of c (trace w) (key_request c url e) = Inr k" "enc i k = Inl f"
  shows "encrypt_organization c enc url e w =
    (Raise f, emit (Encrypt i k) (emit (Request (key_request c url e))
       (log_msg DEBUG (''retreiving public key of org='' @ py_str c (organization_id e)) w)))"
  using assms
  by (cases e)
     (auto simp: encrypt_organization_def public_key_of_def py_get_def Let_def
           split: option.splits sum.splits)

lemma step_succeeds:
  assumes "input_of e = Some i" "truthy i"
    and "public_key_of c (trace w) (key_request c url e) = Inr k" "enc i k = Inr x"
  shows "\<exists>r. encrypt_organization c enc url e w =
    (Next (py_set e ''input'' x, r),
     log_msg DEBUG (''Input succesfully encrypted for organization ''
         @ py_str c (organization_id e) @ ''!'')
       (log_msg DEBUG (''should be unreadable='' @ py_str c x)
         (emit (Encrypt i k) (emit (Request (key_request c url e))
           (log_msg DEBUG (''retreiving public key of org='' @ py_str c (organization_id e)) w)))))"
  using assms
  by (cases e)
     (auto simp: encrypt_organization_def public_key_of_def py_get_def Let_def
           split: option.splits sum.splits)

lemma loop_append:
  "encrypt_organizations c enc url (xs @ ys) st w =
    (case encrypt_organizations c enc url xs st w of
       (Next st', w') \<Rightarrow> encrypt_organizations c enc url ys st' w'
     | (Raise f, w') \<Rightarrow> (Raise f, w')
     | (Return v, w') \<Rightarrow> (Return v, w'))"
  by (induction xs arbitrary: st w) (auto split: prod.splits flow.splits)

lemma step_trace:
  assumes "encrypt_organization c enc url e w = (r, w')"
  shows "\<exists>es. trace w' = trace w @ es
          \<and> (calls es = [] \<or> calls es = [key_request c url e])
          \<and> (\<not> usable_input e \<longrightarrow> es = [])
          \<and> ((\<exists>x. r = Next x) \<longrightarrow> usable_input e \<and> calls es = [key_request c url e])"
proof (cases "usable_input e")
  case False
  with step_unusable [OF False, of c enc url w] assms show ?thesis by auto
next
  case True
  then obtain i where i: "input_of e = Some i" "truthy i"
    by (auto simp: usable_input_def split: option.splits)
  show ?thesis
  proof (cases "public_key_of c (trace w) (key_request c url e)")
    case (Inl f)
    from step_lookup_fails [OF i Inl, of enc] assms True show ?thesis by auto
  next
    case (Inr k)
    show ?thesis
    proof (cases "enc i k")
      case (Inl f)
      from step_encrypt_fails [where enc = enc, OF i Inr Inl] assms True show ?thesis by auto
    next
      case Inr2: (Inr x)
      from step_succeeds [where enc = enc, OF i Inr Inr2] assms True show ?thesis by auto
    qed
  qed
qed

lemma loop_trace:
  "encrypt_organizations c enc url xs st w = (r, w') \<Longrightarrow>
    \<exists>es m. trace w' = trace w @ es
      \<and> calls es = map (key_request c url) (take m (takeWhile usable_input xs))
      \<and> ((\<exists>x. r = Next x) \<longrightarrow> (\<forall>e \<in> set xs. usable_input e) \<and> calls es = map (key_request c url) xs)"
proof (induction xs arbitrary: st w)
  case Nil
  then show ?case by auto
next
  case (Cons e rest)
  obtain r1 w1 where s: "encrypt_organization c enc url e w = (r1, w1)" by fastforce
  from step_trace [OF s] obtain es1 where es1: "trace w1 = trace w @ es1"
      "calls es1 = [] \<or> calls es1 = [key_request c url e]"
      "\<not> usable_input e \<longrightarrow> es1 = []"
      "(\<exists>x. r1 = Next x) \<longrightarrow> usable_input e \<and> calls es1 = [key_request c url e]"
    by blast
  show ?case
  proof (cases r1)
    case (Next x)
    obtain o' resp where x: "x = (o', resp)" by (cases x)
    from Cons.prems s Next x
    have "encrypt_organizations c enc url rest (fst st @ [o'], Some resp) w1 = (r, w')" by simp
    from Cons.IH [OF this] obtain es2 m where es2: "trace w' = trace w1 @ es2"
       "calls es2 = map (key_request c url) (take m (takeWhile usable_input rest))"
       "(\<exists>x. r = Next x) \<longrightarrow> (\<forall>e \<in> set rest. usable_input e) \<and> calls es2 = map (key_request c url) rest" by blast
    have u: "usable_input e" "calls es1 = [key_request c url e]" using es1(4) Next by auto
    have "trace w' = trace w @ (es1 @ es2)" using es1(1) es2(1) by simp
    moreover have "calls (es1 @ es2) = map (key_request c url) (take (Suc m) (takeWhile usable_input (e # rest)))"
      using u es2(2) by (simp add: calls_append)
    moreover have "(\<exists>x. r = Next x) \<longrightarrow> (\<forall>e' \<in> set (e # rest). usable_input e')
        \<and> calls (es1 @ es2) = map (key_request c url) (e # rest)"
      using u es2(3) by (auto simp: calls_append)
    ultimately show ?thesis by blast
  next
    case (Raise f)
    with Cons.prems s have rw: "r = Raise f" "w' = w1" by auto
    show ?thesis
    proof (cases "calls es1 = []")
      case True
      have "calls es1 = map (key_request c url) (take 0 (takeWhile usable_input (e # rest)))"
        using True by simp
      with es1(1) rw show ?thesis by blast
    next
      case False
      then have "calls es1 = [key_request c url e]" "usable_input e" using es1(2,3) by auto
      then have "calls es1 = map (key_request c url) (take 1 (takeWhile usable_input (e # rest)))"
        by simp
      with es1(1) rw show ?thesis by blast
    qed
  next
    case (Return v)
    with Cons.prems s have rw: "r = Return v" "w' = w1" by auto
    show ?thesis
    proof (cases "calls es1 = []")
      case True
      have "calls es1 = map (key_request c url) (take 0 (takeWhile usable_input (e # rest)))"
        using True by simp
      with es1(1) rw show ?thesis by blast
    next
      case False
      then have "calls es1 = [key_request c url e]" "usable_input e" using es1(2,3) by auto
      then have "calls es1 = map (key_request c url) (take 1 (takeWhile usable_input (e # rest)))"
        by simp
      with es1(1) rw show ?thesis by blast
    qed
  qed
qed


lemma step_return:
  "encrypt_organization c enc url e w = (Return v, w') \<Longrightarrow> v = None"
  by (auto simp: encrypt_organization_def Let_def split: sum.splits if_splits)

lemma loop_return:
  "encrypt_organizations c enc url xs st w = (Return v, w') \<Longrightarrow> v = None"
proof (induction xs arbitrary: st w)
  case Nil
  then show ?case by simp
next
  case (Cons e rest)
  then show ?case
    by (auto split: prod.splits flow.splits dest: step_return)
qed

lemma proxy_task_bad_env:
  assumes "server_io c = None \<or> (\<exists>f. server_info c = Inl f) \<or> map_of (req_headers rq) ''Authorization'' = None"
  shows "\<exists>f. proxy_task c rq w = (Inl f, w)"
  using assms by (auto simp: proxy_task_def split: option.splits sum.splits)

lemma proxy_task_list:
  assumes "server_io c = Some enc" "server_info c = Inr url"
    "map_of (req_headers rq) ''Authorization'' = Some auth"
    "req_json rq = Inr (JObj kv)" "map_of kv ''organizations'' = Some (JArr xs)" "xs \<noteq> []"
  shows "proxy_task c rq w =
    (case encrypt_organizations c enc url xs ([], None) (log_count c (length xs) w) of
       (Raise f, w') \<Rightarrow> (Inl f, w')
     | (Return v, w') \<Rightarrow> (Inr v, w')
     | (Next (encrypted_organizations, response), w') \<Rightarrow>
         (case send c (trace w')
                 (task_request url auth (py_set (JObj kv) ''organizations'' (JArr encrypted_organizations))) of
           Inl e \<Rightarrow>
             reply response
               (log_exc DEBUG e
                 (log_msg ERROR ''Proxyserver was unable to post new task!''
                   (emit (Request (task_request url auth
                      (py_set (JObj kv) ''organizations'' (JArr encrypted_organizations)))) w')))
         | Inr r \<Rightarrow> reply (Some r) (emit (Request (task_request url auth
                      (py_set (JObj kv) ''organizations'' (JArr encrypted_organizations)))) w')))"
  using assms by (simp add: proxy_task_def py_get_def Let_def split: prod.splits flow.splits sum.splits)

lemma proxy_task_falsy:
  assumes "req_json rq = Inr (JObj kv)"
    and "case map_of kv ''organizations'' of None \<Rightarrow> True | Some v \<Rightarrow> \<not> truthy v"
  shows "(\<exists>f. proxy_task c rq w = (Inl f, w))
       \<or> proxy_task c rq w = (Inr None, log_msg ERROR ''No organizations found?!'' w)"
  using assms by (auto simp: proxy_task_def py_get_def split: option.splits sum.splits)

lemma proxy_task_abort:
  assumes "req_json rq = Inr (JObj kv)" "map_of kv ''organizations'' = Some (JArr xs)"
    and "\<exists>e \<in> set xs. \<not> usable_input e"
  shows "\<exists>es m u. trace (snd (proxy_task c rq w)) = trace w @ es
           \<and> calls es = map (key_request c u) (take m (takeWhile usable_input xs))
           \<and> (\<forall>j. fst (proxy_task c rq w) \<noteq> Inr (Some j))"
proof (cases "server_io c = None \<or> (\<exists>f. server_info c = Inl f)
               \<or> map_of (req_headers rq) ''Authorization'' = None")
  case True
  from proxy_task_bad_env [OF True] obtain f where "proxy_task c rq w = (Inl f, w)" by blast
  then have "trace (snd (proxy_task c rq w)) = trace w @ []"
     "calls [] = map (key_request c []) (take 0 (takeWhile usable_input xs))"
     "\<forall>j. fst (proxy_task c rq w) \<noteq> Inr (Some j)" by simp_all
  then show ?thesis by blast
next
  case False
  then obtain enc url auth where env: "server_io c = Some enc" "server_info c = Inr url"
      "map_of (req_headers rq) ''Authorization'' = Some auth"
    by (cases "server_info c") auto
  from assms(3) have ne: "xs \<noteq> []" by auto
  obtain r w' where l: "encrypt_organizations c enc url xs ([], None) (log_count c (length xs) w) = (r, w')"
    by fastforce
  from loop_trace [OF l] obtain es m where es: "trace w' = trace w @ es"
     "calls es = map (key_request c url) (take m (takeWhile usable_input xs))"
     "(\<exists>x. r = Next x) \<longrightarrow> (\<forall>e \<in> set xs. usable_input e)" by auto
  from es(3) assms(3) have nn: "\<forall>x. r \<noteq> Next x" by blast
  have "snd (proxy_task c rq w) = w' \<and> (\<forall>j. fst (proxy_task c rq w) \<noteq> Inr (Some j))"
  proof (cases r)
    case (Raise f)
    then show ?thesis using l by (simp add: proxy_task_list [OF env assms(1,2) ne])
  next
    case (Return v)
    with l loop_return have "v = None" by blast
    then show ?thesis using l Return by (simp add: proxy_task_list [OF env assms(1,2) ne])
  next
    case (Next x)
    with nn show ?thesis by simp
  qed
  with es(1,2) show ?thesis by metis
qed

lemma takeWhile_weaker:
  "(\<And>x. P x \<Longrightarrow> Q x) \<Longrightarrow> takeWhile P xs = take (length (takeWhile P xs)) (takeWhile Q xs)"
  by (induction xs) auto

lemma usable_not_lacking: "usable_input e \<Longrightarrow> \<not> lacks_input e"
  by (auto simp: usable_input_def lacks_input_def split: option.splits)

lemma step_no_input:
  assumes "map_of e ''input'' = None \<or> (\<exists>v. map_of e ''input'' = Some v \<and> \<not> truthy v)"
  shows "encrypt_organization c enc url (JObj e) w
          = (Return None, log_msg ERROR ''No input for organization?!'' w)"
  using assms by (auto simp: encrypt_organization_def py_get_def)

lemma loop_stops_at_no_input:
  assumes "map_of e ''input'' = None \<or> (\<exists>v. map_of e ''input'' = Some v \<and> \<not> truthy v)"
  shows "encrypt_organizations c enc url (pre @ JObj e # post) st w =
    (case encrypt_organizations c enc url pre st w of
       (Next st', w') \<Rightarrow> (Return None, log_msg ERROR ''No input for organization?!'' w')
     | (Raise f, w') \<Rightarrow> (Raise f, w')
     | (Return v, w') \<Rightarrow> (Return v, w'))"
  by (simp add: loop_append step_no_input [OF assms] split: prod.splits flow.splits)

lemma takeWhile_stops:
  "\<not> P e \<Longrightarrow> \<exists>n. takeWhile P (pre @ e # post) = take n pre"
proof (induction pre)
  case Nil
  then show ?case by simp
next
  case (Cons a pre)
  then obtain n where n: "takeWhile P (pre @ e # post) = take n pre" by blast
  show ?case
  proof (cases "P a")
    case True
    with n have "takeWhile P ((a # pre) @ e # post) = take (Suc n) (a # pre)" by simp
    then show ?thesis by blast
  next
    case False
    then have "takeWhile P ((a # pre) @ e # post) = take 0 (a # pre)" by simp
    then show ?thesis by blast
  qed
qed

lemma proxy_task_same_until_no_input:
  assumes "map_of kv1 ''organizations'' = Some (JArr (pre @ JObj e1 # post))"
    and "map_of kv2 ''organizations'' = Some (JArr (pre @ JObj e2 # post))"
    and "map_of e1 ''input'' = None \<or> (\<exists>v. map_of e1 ''input'' = Some v \<and> \<not> truthy v)"
    and "map_of e2 ''input'' = None \<or> (\<exists>v. map_of e2 ''input'' = Some v \<and> \<not> truthy v)"
  shows "proxy_task c (rq\<lparr>req_json := Inr (JObj kv1)\<rparr>) w
       = proxy_task c (rq\<lparr>req_json := Inr (JObj kv2)\<rparr>) w"
  using assms(1,2)
  by (simp add: proxy_task_def py_get_def loop_stops_at_no_input [OF assms(3)]
      loop_stops_at_no_input [OF assms(4)]
      split: option.splits sum.splits prod.splits flow.splits)

lemma reply_world [simp]: "snd (reply r w) = w"
  by (simp add: reply_def split: option.splits sum.splits)

lemma proxy_task_after_prefix:
  assumes "server_io c = Some enc" "server_info c = Inr url"
    "map_of (req_headers rq) ''Authorization'' = Some auth"
    "req_json rq = Inr (JObj kv)" "map_of kv ''organizations'' = Some (JArr (xs @ ys))"
    "xs @ ys \<noteq> []"
    and "encrypt_organizations c enc url xs ([], None) (log_count c (length (xs @ ys)) w) = (Next st, w2)"
  shows "\<exists>es. trace (snd (proxy_task c rq w)) = trace w2 @ es"
proof -
  obtain r w' where l: "encrypt_organizations c enc url ys st w2 = (r, w')" by fastforce
  from loop_trace [OF l] obtain es1 where es1: "trace w' = trace w2 @ es1" by blast
  have full: "encrypt_organizations c enc url (xs @ ys) ([], None) (log_count c (length (xs @ ys)) w) = (r, w')"
    using assms(7) l by (simp add: loop_append)
  have "\<exists>es2. trace (snd (proxy_task c rq w)) = trace w' @ es2"
    unfolding proxy_task_list [OF assms(1-6)] full
    by (cases r) (auto split: sum.splits prod.splits)
  with es1 show ?thesis by auto
qed

lemma proxy_task_stops_at:
  assumes "server_io c = Some enc" "server_info c = Inr url"
    "map_of (req_headers rq) ''Authorization'' = Some auth"
    "req_json rq = Inr (JObj kv)" "map_of kv ''organizations'' = Some (JArr (pre @ e # post))"
    and "encrypt_organizations c enc url pre ([], None)
           (log_count c (length (pre @ e # post)) w) = (Next st, w2)"
    and "encrypt_organization c enc url e w2 = (r, w3)" "\<forall>x. r \<noteq> Next x"
  shows "proxy_task c rq w = ((case r of Raise f \<Rightarrow> Inl f | _ \<Rightarrow> Inr None), w3)"
proof -
  have ne: "pre @ e # post \<noteq> []" by simp
  show ?thesis
  proof (cases r)
    case (Raise f)
    with assms(6,7) have "encrypt_organizations c enc url (pre @ e # post) ([], None)
           (log_count c (length (pre @ e # post)) w) = (Raise f, w3)"
      by (simp add: loop_append)
    with Raise show ?thesis unfolding proxy_task_list [OF assms(1-5) ne] by simp
  next
    case (Return v)
    with assms(7) step_return have v: "v = None" by blast
    from Return assms(6,7) have "encrypt_organizations c enc url (pre @ e # post) ([], None)
           (log_count c (length (pre @ e # post)) w) = (Return v, w3)"
      by (simp add: loop_append)
    with Return v show ?thesis unfolding proxy_task_list [OF assms(1-5) ne] by simp
  next
    case (Next x)
    with assms(8) show ?thesis by simp
  qed
qed

lemma loop_all_succeed:
  assumes "\<forall>e \<in> set xs. input_of e = Some (inp e) \<and> truthy (inp e)"
    and "\<forall>h. \<forall>e \<in> set xs. public_key_of c h (key_request c url e) = Inr (key e)"
    and "\<forall>e \<in> set xs. enc (inp e) (key e) = Inr (cipher e)"
  shows "\<exists>resp w'. encrypt_organizations c enc url xs (acc, r0) w
            = (Next (acc @ map (\<lambda>e. py_set e ''input'' (cipher e)) xs, resp), w')
          \<and> trace w' = trace w
               @ concat (map (\<lambda>e. [Request (key_request c url e), Encrypt (inp e) (key e)]) xs)"
  using assms
proof (induction xs arbitrary: acc r0 w)
  case Nil
  then show ?case by simp
next
  case (Cons e rest)
  have i: "input_of e = Some (inp e)" "truthy (inp e)" using Cons.prems(1) by auto
  have k: "public_key_of c (trace w) (key_request c url e) = Inr (key e)"
    using Cons.prems(2) by auto
  have x: "enc (inp e) (key e) = Inr (cipher e)" using Cons.prems(3) by auto
  from step_succeeds [where enc = enc, OF i k x] obtain r w1 where
    s: "encrypt_organization c enc url e w = (Next (py_set e ''input'' (cipher e), r), w1)"
    and t: "trace w1 = trace w @ [Request (key_request c url e), Encrypt (inp e) (key e)]"
    by fastforce
  have "\<exists>resp w'. encrypt_organizations c enc url rest (acc @ [py_set e ''input'' (cipher e)], Some r) w1
            = (Next ((acc @ [py_set e ''input'' (cipher e)])
                 @ map (\<lambda>e. py_set e ''input'' (cipher e)) rest, resp), w')
          \<and> trace w' = trace w1
               @ concat (map (\<lambda>e. [Request (key_request c url e), Encrypt (inp e) (key e)]) rest)"
    using Cons.prems by (intro Cons.IH) auto
  then show ?case using s t by auto
qed

subsection \<open>The generic forward\<close>

lemma log_status_world:
  "trace (snd (log_status c r w)) = trace w"
  "set (logged w) \<subseteq> set (logged (snd (log_status c r w)))"
  by (auto simp: log_status_def Let_def log_msg_def log_val_def split: sum.splits)

lemma logged_mono [simp]:
  "logged (log_msg l m w) = logged w @ [Log l m]"
  "logged (log_exc l e w) = logged w @ [LogExc l e]"
  "logged (emit ev w) = logged w"
  by (simp_all add: log_msg_def log_exc_def emit_def)

lemma log_status_trace: "log_status c r w = (x, w') \<Longrightarrow> trace w' = trace w"
  using log_status_world(1) [of c r w] by simp

lemma proxy_sends:
  assumes "server_info c = Inr url" "req_json rq = Inr body"
  shows "trace (snd (proxy c path rq w)) = trace w
          @ [Request (forward_request (requests_method (lower (req_method rq)))
               (url @ ''/'' @ path) body (req_args rq)
               (map_of (req_headers rq) ''Authorization''))]"
proof (cases "map_of (req_headers rq) ''Authorization''")
  case None
  with assms show ?thesis
    by (auto simp: proxy_def Let_def split: sum.splits flow.splits prod.splits
             dest: log_status_trace)
next
  case (Some a)
  with assms show ?thesis
    by (auto simp: proxy_def Let_def split: sum.splits flow.splits prod.splits
             dest: log_status_trace)
qed

subsection \<open>The permission engine\<close>

lemma get_by_Some:
  "get_by cat n s op = Some r \<Longrightarrow> r \<in> set cat \<and> triple r = (n, s, op)"
  by (auto simp: get_by_def triple_def find_Some_iff)

lemma get_by_unique:
  assumes "distinct (map triple cat)" "r \<in> set cat" "triple r = (n, s, op)"
  shows "get_by cat n s op = Some r"
proof (cases "get_by cat n s op")
  case None
  with assms(2,3) show ?thesis by (auto simp: get_by_def triple_def find_None_iff)
next
  case (Some r')
  then have "r' \<in> set cat" "triple r' = (n, s, op)" using get_by_Some by blast+
  moreover have "inj_on triple (set cat)" using assms(1) by (simp add: distinct_map)
  ultimately have "r' = r" using assms(2,3) by (simp add: inj_on_def)
  with Some show ?thesis by simp
qed

lemma can_iff:
  "can cat u n s op \<longleftrightarrow> (\<exists>r. get_by cat n s op = Some r \<and> r \<in> effective_rules u)"
  by (auto simp: can_def py_in_def effective_rules_def Let_def split: option.splits)

text \<open>
  C5. Let the catalog hold no two rules with the same (resource, scope, operation), as the
  data model requires, and let the user's direct and role rules be catalog rules. Then
  \<open>can\<close> is true exactly when the queried triple is the triple of one of the user's direct
  rules or of a rule of one of the user's roles: a rule of another scope, resource or
  operation does not count. And for any catalog, giving the user (directly or through a
  role) one more rule whose triple differs from the queried one leaves the answer for the
  queried triple as it was.
\<close>

theorem can_exact_triple:
  "(distinct (map triple catalog) \<and> effective_rules u \<subseteq> set catalog \<longrightarrow>
      (can catalog u resource sc operation
        \<longleftrightarrow> (resource, sc, operation) \<in> triple ` effective_rules u))
   \<and> (\<forall>x u'. triple x \<noteq> (resource, sc, operation)
          \<and> effective_rules u' = insert x (effective_rules u) \<longrightarrow>
        can catalog u' resource sc operation = can catalog u resource sc operation)"
proof (intro conjI impI allI)
  assume inv: "distinct (map triple catalog) \<and> effective_rules u \<subseteq> set catalog"
  show "can catalog u resource sc operation
          \<longleftrightarrow> (resource, sc, operation) \<in> triple ` effective_rules u"
  proof
    assume "can catalog u resource sc operation"
    then obtain r where "get_by catalog resource sc operation = Some r" "r \<in> effective_rules u"
      by (auto simp: can_iff)
    then show "(resource, sc, operation) \<in> triple ` effective_rules u"
      using get_by_Some by (metis image_eqI)
  next
    assume "(resource, sc, operation) \<in> triple ` effective_rules u"
    then obtain r where r: "r \<in> effective_rules u" "triple r = (resource, sc, operation)"
      by auto
    with inv have "get_by catalog resource sc operation = Some r"
      by (intro get_by_unique) auto
    with r show "can catalog u resource sc operation" by (auto simp: can_iff)
  qed
next
  fix x u'
  assume a: "triple x \<noteq> (resource, sc, operation)
               \<and> effective_rules u' = insert x (effective_rules u)"
  show "can catalog u' resource sc operation = can catalog u resource sc operation"
    using a get_by_Some by (auto simp: can_iff)
qed

text \<open>
  The hypotheses of \<open>can_exact_triple\<close> hold for the researcher, who may read and create
  tasks of the organization, may not read tasks globally, and keeps the first answer when
  given the global rule as well.
\<close>

theorem can_exact_triple_witness:
  "distinct (map triple demo_catalog) \<and> effective_rules researcher \<subseteq> set demo_catalog
   \<and> can demo_catalog researcher ''task'' Organization OpRead
   \<and> can demo_catalog researcher ''task'' Organization OpCreate
   \<and> \<not> can demo_catalog researcher ''task'' Global OpRead
   \<and> triple view_task_global \<noteq> (''task'', Organization, OpRead)
   \<and> effective_rules (researcher\<lparr>user_rules := view_task_global # user_rules researcher\<rparr>)
        = insert view_task_global (effective_rules researcher)
   \<and> can demo_catalog (researcher\<lparr>user_rules := view_task_global # user_rules researcher\<rparr>)
        ''task'' Organization OpRead"
proof -
  have inv: "distinct (map triple demo_catalog) \<and> effective_rules researcher \<subseteq> set demo_catalog"
    by (simp add: demo_catalog_def researcher_def effective_rules_def triple_def
        view_task_def view_task_global_def create_task_def)
  have eff: "triple ` effective_rules researcher
       = {(''task'', Organization, OpRead), (''task'', Organization, OpCreate)}"
    by (auto simp: researcher_def effective_rules_def triple_def view_task_def create_task_def)
  have add: "triple view_task_global \<noteq> (''task'', Organization, OpRead)
     \<and> effective_rules (researcher\<lparr>user_rules := view_task_global # user_rules researcher\<rparr>)
        = insert view_task_global (effective_rules researcher)"
    by (auto simp: researcher_def effective_rules_def triple_def view_task_global_def)
  have more: "can demo_catalog (researcher\<lparr>user_rules := view_task_global # user_rules researcher\<rparr>)
        ''task'' Organization OpRead = can demo_catalog researcher ''task'' Organization OpRead"
    using add can_exact_triple [of demo_catalog researcher "''task''" Organization OpRead]
    by blast
  show ?thesis
    using inv eff add more
      can_exact_triple [of demo_catalog researcher "''task''" Organization OpRead]
      can_exact_triple [of demo_catalog researcher "''task''" Organization OpCreate]
      can_exact_triple [of demo_catalog researcher "''task''" Global OpRead]
    by simp
qed

subsection \<open>The endpoint guard\<close>

text \<open>A node whose row is found and saved passes a node-only endpoint: the view runs.\<close>

lemma with_node_accepts_node:
  assumes "auth_get p (db s) identity = Inr node" "a_type node = ''node''"
    and "auth_save p (db s) (node\<lparr>last_seen := utcnow p\<rparr>) = Inr d"
  shows "with_node p fn identity [(''client_type'', JStr ''node'')] s =
    fn (s_log DEBUG (''Received request from node '' @ a_label node @ '' (''
            @ s_str p (JNum (a_id node)) @ '')'')
         (s\<lparr>g_type := Some (JStr ''node''), g_user := None, g_node := None,
            g_container := None, db := d, g_node := Some (node\<lparr>last_seen := utcnow p\<rparr>)\<rparr>))"
  using assms
  by (simp add: with_node_def only_for_def get_and_update_authenticatable_info_def)

text \<open>
  C6. The claim asks that a principal whose kind is not in the allow-set is rejected with
  a typed rejection, never by an unhandled fault. A node-only endpoint reached with a
  user's token does not return a rejection: line 195 raises a plain \<^verbatim>\<open>Exception\<close>,
  and the view is not run. The comment of line 190 says that the caller gets a 500 error
  and that an error message would be better.
\<close>

theorem with_node_rejects_user_by_raising:
  "with_node demo_sctx (\<lambda>s. (Inr (), s)) (JNum 1) [(''client_type'', JStr ''user'')] fresh =
    (Inl (Exception ''users are not allowed to access http://server:5000/api/node (GET)''),
     fresh\<lparr>g_type := Some (JStr ''user''),
            s_logged := [Log WARNING
              ''users are not allowed to access http://server:5000/api/node (GET)'']\<rparr>)"
  by (simp add: with_node_def only_for_def demo_sctx_def fresh_def s_log_def demo_str_def)

subsection \<open>The relay when the network call raises\<close>

text \<open>
  C7. The claim asks that a relay request whose outbound call raises still gives the
  caller a well-defined failure result, with the response value never left unbound. In
  \<^verbatim>\<open>proxy_results\<close> the exception is caught and logged, and line 134 then reads
  \<^verbatim>\<open>response\<close>, which was never bound: the view ends in an \<^verbatim>\<open>UnboundLocalError\<close>.
\<close>

theorem proxy_results_unbound_response:
  "proxy_results (demo_ctx unreachable) (demo_request ''GET'' JNull) 42 empty_world =
    (Inl UnboundLocalError,
     \<lparr>trace = [Request \<lparr>call_verb = Get, call_url = ''http://server:5000/api/result/42'',
                call_headers = [(''Authorization'', Some ''Bearer t0k'')],
                call_json = JNull, call_params = []\<rparr>],
      logged = [Log ERROR ''Proxyserver was unable to retrieve results!'',
                LogExc DEBUG (Raised ''ConnectionError'')]\<rparr>)"
  by (simp add: proxy_results_def demo_server_info demo_request_def result_request_def
      unreachable_def reply_def emit_def log_msg_def log_exc_def empty_world_def
      demo_str_nums demo_ctx_sel)

text \<open>
  The other two views after a call that raises: \<^verbatim>\<open>proxy_task\<close> answers with the body of
  the last key lookup, to which \<^verbatim>\<open>response\<close> is still bound, and \<^verbatim>\<open>proxy\<close> returns
  nothing.
\<close>

lemma proxy_task_stale_response:
  "fst (proxy_task (demo_ctx flaky) (task_post [org 1 (JStr ''a'')]) empty_world)
     = Inr (Some (JObj [(''id'', JNum 1), (''public_key'', JStr ''pubA'')]))"
  by (simp add: relay_eval flaky_def)

lemma proxy_returns_nothing:
  "fst (proxy (demo_ctx unreachable) ''collaboration'' bare_get empty_world) = Inr None"
  by (simp add: proxy_def demo_server_info bare_get_def demo_ctx_sel unreachable_def Let_def)

subsection \<open>The route of the generic forward\<close>

text \<open>What the generic route lets through: GET and HEAD reach the view, the four other
  methods of the view's table do not.\<close>

lemma generic_route_get:
  "req_method rq = ''GET'' \<or> req_method rq = ''HEAD'' \<Longrightarrow>
     generic_endpoint c path rq w = proxy c path rq w"
  by (auto simp: generic_endpoint_def route_def proxy_methods_def view_methods_def)

lemma generic_route_other:
  "req_method rq \<in> {''POST'', ''PATCH'', ''PUT'', ''DELETE''} \<Longrightarrow>
     generic_endpoint c path rq w = (Inl MethodNotAllowed, w)"
  by (auto simp: generic_endpoint_def route_def proxy_methods_def view_methods_def)

text \<open>
  C8. The claim asks that a request with method GET, POST, PATCH, PUT or DELETE is
  forwarded with the same method. The view holds a table for the five methods, but its
  route (line 136) lists no methods, unlike the route of \<^verbatim>\<open>proxy_task\<close> (line 37), so
  the route takes GET and HEAD only: a POST to a generic path is answered with 405, the
  view is not run and nothing is sent to the coordinator.
\<close>

theorem generic_route_refuses_post:
  "generic_endpoint (demo_ctx coordinator) ''collaboration''
      (demo_request ''POST'' (JObj [(''name'', JStr ''c'')])) empty_world
     = (Inl MethodNotAllowed, empty_world)"
  by (simp add: generic_endpoint_def route_def proxy_methods_def view_methods_def
      demo_request_def)

subsection \<open>The create-task forward\<close>

text \<open>
  C1, as stated, fails: an entry that carries an empty input is not encrypted and
  forwarded. The relay tests the input's truth value (line 80), logs, and returns nothing;
  no call is made.
\<close>

theorem empty_input_not_forwarded:
  "proxy_task (demo_ctx coordinator) (task_post [org 1 (JStr '''')]) empty_world =
    (Inr None,
     \<lparr>trace = [],
      logged = [Log DEBUG ''1 organizations, attemping to encrypt'',
                Log ERROR ''No input for organization?!'']\<rparr>)"
  by (simp add: proxy_task_def demo_ctx_sel demo_server_info task_post_sel py_get_def
      log_count_def demo_str_nums encrypt_organization_def org_def log_msg_def empty_world_def)

text \<open>
  C1, amended. Let the relay be configured, the request carry an \<^verbatim>\<open>Authorization\<close>
  header and a payload whose \<^verbatim>\<open>organizations\<close> is a non-empty list, and let every entry
  carry an input that passes the truth test. Let every key lookup answer with a JSON
  object (\<open>key e\<close> is its \<^verbatim>\<open>public_key\<close>), the encryption provider return a ciphertext
  for every entry, and the coordinator answer the task request with a JSON body. Then
  the relay looks up the key of each entry in list order with
  \<^verbatim>\<open>GET /organization/{id}\<close>, encrypts each input under the key fetched for that entry,
  sends to \<^verbatim>\<open>/task\<close> the payload in which every entry's input is replaced by its
  ciphertext, with the \<^verbatim>\<open>Authorization\<close> value unchanged, and returns the coordinator's
  body. These are all the calls it makes.
\<close>

theorem create_task_forward:
  assumes "server_io c = Some enc" "server_info c = Inr url"
    "map_of (req_headers rq) ''Authorization'' = Some auth"
    "req_json rq = Inr (JObj kv)" "map_of kv ''organizations'' = Some (JArr orgs)" "orgs \<noteq> []"
    and "\<forall>e \<in> set orgs. input_of e = Some (inp e) \<and> truthy (inp e)"
    and "\<forall>h. \<forall>e \<in> set orgs. public_key_of c h (key_request c url e) = Inr (key e)"
    and "\<forall>e \<in> set orgs. enc (inp e) (key e) = Inr (cipher e)"
    and "\<forall>h. \<exists>r. send c h (task_request url auth
            (py_set (JObj kv) ''organizations''
               (JArr (map (\<lambda>e. py_set e ''input'' (cipher e)) orgs)))) = Inr r
          \<and> resp_json r = Inr answer"
  shows "fst (proxy_task c rq w) = Inr (Some answer)
       \<and> trace (snd (proxy_task c rq w)) = trace w
           @ concat (map (\<lambda>e. [Request (key_request c url e), Encrypt (inp e) (key e)]) orgs)
           @ [Request (task_request url auth
                (py_set (JObj kv) ''organizations''
                   (JArr (map (\<lambda>e. py_set e ''input'' (cipher e)) orgs))))]"
proof -
  from loop_all_succeed [where enc = enc and acc = "[]", OF assms(7,8,9)]
  obtain resp w' where
    l: "encrypt_organizations c enc url orgs ([], None) (log_count c (length orgs) w)
         = (Next (map (\<lambda>e. py_set e ''input'' (cipher e)) orgs, resp), w')"
    and t: "trace w' = trace w
         @ concat (map (\<lambda>e. [Request (key_request c url e), Encrypt (inp e) (key e)]) orgs)"
    by fastforce
  from assms(10) obtain r where
    r: "send c (trace w') (task_request url auth
            (py_set (JObj kv) ''organizations''
               (JArr (map (\<lambda>e. py_set e ''input'' (cipher e)) orgs)))) = Inr r"
       "resp_json r = Inr answer" by blast
  show ?thesis
    unfolding proxy_task_list [OF assms(1-6)] l
    using r t by (simp add: reply_def)
qed

text \<open>
  The hypotheses hold for the two organizations of the spec's example: inputs \<open>a\<close> and
  \<open>b\<close>, keys \<open>pubA\<close> and \<open>pubB\<close>.
\<close>

theorem create_task_forward_witness:
  "fst (proxy_task (demo_ctx coordinator)
          (task_post [org 1 (JStr ''a''), org 2 (JStr ''b'')]) empty_world)
     = Inr (Some (JObj [(''id'', JNum 7)]))
   \<and> trace (snd (proxy_task (demo_ctx coordinator)
          (task_post [org 1 (JStr ''a''), org 2 (JStr ''b'')]) empty_world))
     = [Request (get_org ''1''), Encrypt (JStr ''a'') (JStr ''pubA''),
        Request (get_org ''2''), Encrypt (JStr ''b'') (JStr ''pubB''),
        Request \<lparr>call_verb = Post, call_url = ''http://server:5000/api/task'',
           call_headers = [(''Authorization'', Some ''Bearer t0k'')],
           call_json = JObj (task_payload
              [org 1 (JStr ''sealed(a)for(pubA)''), org 2 (JStr ''sealed(b)for(pubB)'')]),
           call_params = []\<rparr>]"
proof -
  let ?orgs = "[org 1 (JStr ''a''), org 2 (JStr ''b'')]"
  let ?c = "demo_ctx coordinator"
  have h1: "\<forall>e \<in> set ?orgs. input_of e = Some (demo_inp e) \<and> truthy (demo_inp e)"
    by (simp add: org_simps)
  have h2: "\<forall>h. \<forall>e \<in> set ?orgs.
      public_key_of ?c h (key_request ?c ''http://server:5000/api'' e) = Inr (demo_key e)"
    by (simp add: key_request_org coordinator_keys demo_key_def org_simps)
  have h3: "\<forall>e \<in> set ?orgs. demo_encrypt (demo_inp e) (demo_key e) = Inr (demo_cipher e)"
    by (simp add: demo_encrypt_def demo_cipher_def)
  have fw: "py_set (JObj (task_payload ?orgs)) ''organizations''
               (JArr (map (\<lambda>e. py_set e ''input'' (demo_cipher e)) ?orgs))
       = JObj (task_payload [org 1 (JStr ''sealed(a)for(pubA)''), org 2 (JStr ''sealed(b)for(pubB)'')])"
    by (simp add: task_payload_def org_simps demo_cipher_def demo_key_def demo_str_simps)
  have h4: "\<forall>h. \<exists>r. send ?c h (task_request ''http://server:5000/api'' ''Bearer t0k''
            (py_set (JObj (task_payload ?orgs)) ''organizations''
               (JArr (map (\<lambda>e. py_set e ''input'' (demo_cipher e)) ?orgs)))) = Inr r
          \<and> resp_json r = Inr (JObj [(''id'', JNum 7)])"
    unfolding fw by (simp add: demo_ctx_sel coordinator_def task_request_def)
  have ne: "?orgs \<noteq> []" by simp
  from create_task_forward [where enc = demo_encrypt and w = empty_world,
      OF demo_ctx_sel(3) demo_server_info task_post_sel(2,1,3) ne h1 h2 h3 h4]
  show ?thesis
    unfolding fw
    by (simp add: key_request_org org_simps demo_key_def task_request_def empty_world_def)
qed

text \<open>
  C2, as stated, fails: when the second entry lacks its input, the key of the first
  entry has been looked up (and its input encrypted) before the relay aborts, so an
  outbound call to the organization-key endpoint is made. The relay then returns nothing.
\<close>

theorem key_lookup_before_missing_input:
  "proxy_task (demo_ctx coordinator)
      (task_post [org 1 (JStr ''a''), JObj [(''id'', JNum 2)]]) empty_world =
    (Inr None,
     \<lparr>trace = [Request (get_org ''1''), Encrypt (JStr ''a'') (JStr ''pubA'')],
      logged = [Log DEBUG ''2 organizations, attemping to encrypt'',
                Log DEBUG ''retreiving public key of org=1'',
                Log DEBUG ''should be unreadable=sealed(a)for(pubA)'',
                Log DEBUG ''Input succesfully encrypted for organization 1!'',
                Log ERROR ''No input for organization?!'']\<rparr>)"
  by (simp add: proxy_task_def demo_ctx_sel demo_server_info task_post_def demo_request_def
      task_payload_def org_def py_get_def log_count_def demo_str_nums encrypt_organization_def
      organization_id_def key_request_def coordinator_def demo_encrypt_def emit_def log_msg_def
      empty_world_def demo_str_simps get_org_def)

text \<open>
  C2, amended. For a payload whose \<^verbatim>\<open>organizations\<close> is absent or the empty list, or a
  list with an entry that lacks \<^verbatim>\<open>input\<close>, the relay returns no response of the
  coordinator, and its only outbound calls are key lookups, in list order, of entries
  that stand before the first entry lacking its input: nothing is sent to \<^verbatim>\<open>/task\<close>,
  and no call at all is made when the list is absent or empty or its first entry lacks
  its input.
\<close>

theorem malformed_payload_not_forwarded:
  assumes "req_json rq = Inr (JObj kv)"
    and "map_of kv ''organizations'' = None \<and> xs = [] \<or> map_of kv ''organizations'' = Some (JArr xs)"
    and "xs = [] \<or> (\<exists>e \<in> set xs. lacks_input e)"
  shows "(\<exists>es m u. trace (snd (proxy_task c rq w)) = trace w @ es
            \<and> calls es = map (key_request c u) (take m (takeWhile (\<lambda>e. \<not> lacks_input e) xs)))
       \<and> (\<forall>j. fst (proxy_task c rq w) \<noteq> Inr (Some j))"
proof (cases "xs = []")
  case True
  with assms(2) have "case map_of kv ''organizations'' of None \<Rightarrow> True | Some v \<Rightarrow> \<not> truthy v"
    by auto
  from proxy_task_falsy [OF assms(1) this, of c w]
  have "trace (snd (proxy_task c rq w)) = trace w @ []"
    and "\<forall>j. fst (proxy_task c rq w) \<noteq> Inr (Some j)" by auto
  moreover have "calls [] = map (key_request c []) (take 0 (takeWhile (\<lambda>e. \<not> lacks_input e) xs))"
    by simp
  ultimately show ?thesis by blast
next
  case False
  with assms(2,3) have l: "map_of kv ''organizations'' = Some (JArr xs)"
    and b: "\<exists>e \<in> set xs. \<not> usable_input e"
    using usable_not_lacking by auto
  from proxy_task_abort [OF assms(1) l b, of c w] obtain es m u where
    es: "trace (snd (proxy_task c rq w)) = trace w @ es"
      "calls es = map (key_request c u) (take m (takeWhile usable_input xs))"
      "\<forall>j. fst (proxy_task c rq w) \<noteq> Inr (Some j)" by blast
  have "takeWhile usable_input xs
      = take (length (takeWhile usable_input xs)) (takeWhile (\<lambda>e. \<not> lacks_input e) xs)"
    by (rule takeWhile_weaker) (rule usable_not_lacking)
  then have "take m (takeWhile usable_input xs)
      = take (min m (length (takeWhile usable_input xs))) (takeWhile (\<lambda>e. \<not> lacks_input e) xs)"
    by (metis take_take)
  with es show ?thesis by metis
qed

text \<open>The first entry lacks its input: no outbound call is made.\<close>

theorem malformed_payload_not_forwarded_witness:
  "(\<exists>es. trace (snd (proxy_task (demo_ctx coordinator)
        (task_post [JObj [(''id'', JNum 1)], org 2 (JStr ''b'')]) empty_world)) = es
       \<and> calls es = [])
   \<and> (\<forall>j. fst (proxy_task (demo_ctx coordinator)
        (task_post [JObj [(''id'', JNum 1)], org 2 (JStr ''b'')]) empty_world) \<noteq> Inr (Some j))"
proof -
  let ?xs = "[JObj [(''id'', JNum 1)], org 2 (JStr ''b'')]"
  have h2: "map_of (task_payload ?xs) ''organizations'' = None \<and> ?xs = []
      \<or> map_of (task_payload ?xs) ''organizations'' = Some (JArr ?xs)"
    by (simp add: task_post_sel)
  have h3: "?xs = [] \<or> (\<exists>e \<in> set ?xs. lacks_input e)"
    by (simp add: lacks_input_def)
  have tw: "takeWhile (\<lambda>e. \<not> lacks_input e) ?xs = []"
    by (simp add: lacks_input_def)
  from malformed_payload_not_forwarded [OF task_post_sel(1) h2 h3,
      of "demo_ctx coordinator" empty_world]
  show ?thesis unfolding tw by (simp add: empty_world_def)
qed

text \<open>
  C3. The entries are processed in list order. If the entries before entry \<open>e\<close> were
  processed (the loop over \<open>pre\<close> goes on, reaching the world \<open>w2\<close>) and processing \<open>e\<close>
  fails (it raises or returns, reaching \<open>w3\<close>), then the request ends there: its result
  is that failure and its final world is \<open>w3\<close>. The calls made are the key lookups of the
  entries of \<open>pre\<close>, in their order, and at most the key lookup of \<open>e\<close>: no entry after
  \<open>e\<close> is touched and nothing is sent to \<^verbatim>\<open>/task\<close>.
\<close>

theorem abort_on_first_failure:
  assumes "server_io c = Some enc" "server_info c = Inr url"
    "map_of (req_headers rq) ''Authorization'' = Some auth"
    "req_json rq = Inr (JObj kv)" "map_of kv ''organizations'' = Some (JArr (pre @ e # post))"
    and "encrypt_organizations c enc url pre ([], None)
           (log_count c (length (pre @ e # post)) w) = (Next st, w2)"
    and "encrypt_organization c enc url e w2 = (r, w3)" "\<forall>x. r \<noteq> Next x"
  shows "proxy_task c rq w = ((case r of Raise f \<Rightarrow> Inl f | _ \<Rightarrow> Inr None), w3)
       \<and> (\<exists>es. trace w3 = trace w @ es
            \<and> (calls es = map (key_request c url) pre
               \<or> calls es = map (key_request c url) (pre @ [e])))"
proof
  show "proxy_task c rq w = ((case r of Raise f \<Rightarrow> Inl f | _ \<Rightarrow> Inr None), w3)"
    using assms by (rule proxy_task_stops_at)
  from loop_trace [OF assms(6)] obtain es1 where
    es1: "trace w2 = trace w @ es1" "calls es1 = map (key_request c url) pre" by auto
  from step_trace [OF assms(7)] obtain es2 where
    es2: "trace w3 = trace w2 @ es2" "calls es2 = [] \<or> calls es2 = [key_request c url e]"
    by blast
  have "trace w3 = trace w @ (es1 @ es2)" using es1(1) es2(1) by simp
  moreover have "calls (es1 @ es2) = map (key_request c url) pre
               \<or> calls (es1 @ es2) = map (key_request c url) (pre @ [e])"
    using es1(2) es2(2) by (auto simp: calls_append)
  ultimately show "\<exists>es. trace w3 = trace w @ es
            \<and> (calls es = map (key_request c url) pre
               \<or> calls es = map (key_request c url) (pre @ [e]))" by blast
qed

text \<open>The second key lookup times out: the third entry is never looked up, and no task
  is posted.\<close>

theorem abort_on_first_failure_witness:
  "proxy_task (demo_ctx flaky)
      (task_post [org 1 (JStr ''a''), org 2 (JStr ''b''), org 1 (JStr ''c'')]) empty_world
    = (Inl (Raised ''Timeout''),
       emit (Request (get_org ''2''))
         (log_msg DEBUG ''retreiving public key of org=2'' (after_first ''3'')))"
proof -
  let ?c = "demo_ctx flaky"
  let ?e = "org 2 (JStr ''b'')"
  have o: "map_of (task_payload [org 1 (JStr ''a''), ?e, org 1 (JStr ''c'')]) ''organizations''
       = Some (JArr ([org 1 (JStr ''a'')] @ ?e # [org 1 (JStr ''c'')]))"
    by (simp add: task_post_sel)
  have p: "encrypt_organizations ?c demo_encrypt ''http://server:5000/api'' [org 1 (JStr ''a'')]
       ([], None) (log_count ?c (length ([org 1 (JStr ''a'')] @ ?e # [org 1 (JStr ''c'')])) empty_world)
     = (Next ([org 1 (JStr ''sealed(a)for(pubA)'')], Some org1_response), after_first ''3'')"
  proof -
    have "length ([org 1 (JStr ''a'')] @ ?e # [org 1 (JStr ''c'')]) = 3" by simp
    then show ?thesis
      by (simp only: first_entry_done [where net = flaky and n = 3, OF nets_org1(2) demo_count(2)])
  qed
  have k: "public_key_of ?c (trace (after_first ''3'')) (key_request ?c ''http://server:5000/api'' ?e)
       = Inl (Raised ''Timeout'')"
    by (rule flaky_later)
  have s: "encrypt_organization ?c demo_encrypt ''http://server:5000/api'' ?e (after_first ''3'')
       = (Raise (Raised ''Timeout''),
          emit (Request (get_org ''2''))
            (log_msg DEBUG ''retreiving public key of org=2'' (after_first ''3'')))"
    using step_lookup_fails [OF org_simps(1) _ k, of demo_encrypt]
    by (simp add: key_request_org org_simps demo_ctx_sel demo_str_nums)
  have n: "\<forall>x. Raise (Raised ''Timeout'') \<noteq> Next x" by simp
  from abort_on_first_failure [OF demo_ctx_sel(3) demo_server_info task_post_sel(2,1) o p s n]
  show ?thesis by simp
qed

text \<open>
  C4, as stated, fails: the coordinator answers the lookup of an organization it does
  not know with a JSON object that has no \<^verbatim>\<open>public_key\<close>; the relay hands the key
  \<^verbatim>\<open>None\<close> to the encryption provider and forwards the task.
\<close>

theorem missing_key_still_encrypts:
  "fst (proxy_task (demo_ctx coordinator) (task_post [org 3 (JStr ''a'')]) empty_world)
      = Inr (Some (JObj [(''id'', JNum 7)]))
   \<and> trace (snd (proxy_task (demo_ctx coordinator) (task_post [org 3 (JStr ''a'')]) empty_world))
      = [Request (get_org ''3''), Encrypt (JStr ''a'') JNull,
         Request \<lparr>call_verb = Post, call_url = ''http://server:5000/api/task'',
           call_headers = [(''Authorization'', Some ''Bearer t0k'')],
           call_json = JObj (task_payload [org 3 (JStr ''sealed(a)for(None)'')]),
           call_params = []\<rparr>]"
  by (simp add: relay_eval)

text \<open>
  C4, amended. Let the entries before \<open>e\<close> have been processed, and let \<open>e\<close> carry a
  usable input. If the key lookup of \<open>e\<close> raises, or its body is not JSON or not a JSON
  object, the create-task forward ends with that fault right after the lookup call: the
  input of \<open>e\<close> is not encrypted and nothing more is sent. If the body is an object
  without a \<^verbatim>\<open>public_key\<close> (or with a null one), the lookup is not taken as failed: the
  encryption provider is called with the key \<^verbatim>\<open>None\<close>.
\<close>

theorem key_lookup_failure:
  assumes "server_io c = Some enc" "server_info c = Inr url"
    "map_of (req_headers rq) ''Authorization'' = Some auth"
    "req_json rq = Inr (JObj kv)" "map_of kv ''organizations'' = Some (JArr (pre @ e # post))"
    and "encrypt_organizations c enc url pre ([], None)
           (log_count c (length (pre @ e # post)) w) = (Next st, w2)"
    and "input_of e = Some i" "truthy i"
  shows "(\<forall>f. public_key_of c (trace w2) (key_request c url e) = Inl f \<longrightarrow>
            fst (proxy_task c rq w) = Inl f
            \<and> trace (snd (proxy_task c rq w)) = trace w2 @ [Request (key_request c url e)])
       \<and> (public_key_of c (trace w2) (key_request c url e) = Inr JNull \<longrightarrow>
            (\<exists>es. trace (snd (proxy_task c rq w))
                    = trace w2 @ Request (key_request c url e) # Encrypt i JNull # es))"
proof (intro conjI allI impI)
  fix f
  assume pk: "public_key_of c (trace w2) (key_request c url e) = Inl f"
  note s = step_lookup_fails [OF assms(7,8) pk, of enc]
  have "\<forall>x. Raise f \<noteq> Next x" by simp
  from proxy_task_stops_at [OF assms(1-6) s this]
  show "fst (proxy_task c rq w) = Inl f"
    and "trace (snd (proxy_task c rq w)) = trace w2 @ [Request (key_request c url e)]"
    by simp_all
next
  assume pk: "public_key_of c (trace w2) (key_request c url e) = Inr JNull"
  show "\<exists>es. trace (snd (proxy_task c rq w))
                    = trace w2 @ Request (key_request c url e) # Encrypt i JNull # es"
  proof (cases "enc i JNull")
    case (Inl f)
    note s = step_encrypt_fails [where enc = enc, OF assms(7,8) pk Inl]
    have "\<forall>x. Raise f \<noteq> Next x" by simp
    from proxy_task_stops_at [OF assms(1-6) s this]
    show ?thesis by simp
  next
    case (Inr x)
    from step_succeeds [where enc = enc, OF assms(7,8) pk Inr] obtain r w3 where
      s: "encrypt_organization c enc url e w2 = (Next (py_set e ''input'' x, r), w3)"
      and t: "trace w3 = trace w2 @ [Request (key_request c url e), Encrypt i JNull]"
      by fastforce
    have l: "encrypt_organizations c enc url (pre @ [e]) ([], None)
           (log_count c (length ((pre @ [e]) @ post)) w)
         = (Next (fst st @ [py_set e ''input'' x], Some r), w3)"
      using assms(6) s by (simp add: loop_append)
    have o: "map_of kv ''organizations'' = Some (JArr ((pre @ [e]) @ post))"
      using assms(5) by simp
    have ne: "(pre @ [e]) @ post \<noteq> []" by simp
    from proxy_task_after_prefix [OF assms(1-4) o ne l] t show ?thesis by auto
  qed
qed

text \<open>A lookup that times out, and a lookup answered without a key.\<close>

theorem key_lookup_failure_witness:
  "fst (proxy_task (demo_ctx flaky) (task_post [org 1 (JStr ''a''), org 2 (JStr ''b'')]) empty_world)
      = Inl (Raised ''Timeout'')
   \<and> trace (snd (proxy_task (demo_ctx flaky)
          (task_post [org 1 (JStr ''a''), org 2 (JStr ''b'')]) empty_world))
      = [Request (get_org ''1''), Encrypt (JStr ''a'') (JStr ''pubA''), Request (get_org ''2'')]
   \<and> (\<exists>es. trace (snd (proxy_task (demo_ctx coordinator)
          (task_post [org 1 (JStr ''a''), org 3 (JStr ''b'')]) empty_world))
      = [Request (get_org ''1''), Encrypt (JStr ''a'') (JStr ''pubA''),
         Request (get_org ''3''), Encrypt (JStr ''b'') JNull] @ es)"
proof -
  let ?f = "demo_ctx flaky"
  let ?c = "demo_ctx coordinator"
  have o2: "map_of (task_payload [org 1 (JStr ''a''), org 2 (JStr ''b'')]) ''organizations''
       = Some (JArr ([org 1 (JStr ''a'')] @ org 2 (JStr ''b'') # []))"
    by (simp add: task_post_sel)
  have o3: "map_of (task_payload [org 1 (JStr ''a''), org 3 (JStr ''b'')]) ''organizations''
       = Some (JArr ([org 1 (JStr ''a'')] @ org 3 (JStr ''b'') # []))"
    by (simp add: task_post_sel)
  have pf: "encrypt_organizations ?f demo_encrypt ''http://server:5000/api'' [org 1 (JStr ''a'')]
       ([], None) (log_count ?f (length ([org 1 (JStr ''a'')] @ org 2 (JStr ''b'') # [])) empty_world)
     = (Next ([org 1 (JStr ''sealed(a)for(pubA)'')], Some org1_response), after_first ''2'')"
  proof -
    have "length ([org 1 (JStr ''a'')] @ org 2 (JStr ''b'') # []) = 2" by simp
    then show ?thesis
      by (simp only: first_entry_done [where net = flaky and n = 2, OF nets_org1(2) demo_count(1)])
  qed
  have pc: "encrypt_organizations ?c demo_encrypt ''http://server:5000/api'' [org 1 (JStr ''a'')]
       ([], None) (log_count ?c (length ([org 1 (JStr ''a'')] @ org 3 (JStr ''b'') # [])) empty_world)
     = (Next ([org 1 (JStr ''sealed(a)for(pubA)'')], Some org1_response), after_first ''2'')"
  proof -
    have "length ([org 1 (JStr ''a'')] @ org 3 (JStr ''b'') # []) = 2" by simp
    then show ?thesis
      by (simp only: first_entry_done [where net = coordinator and n = 2, OF nets_org1(1) demo_count(1)])
  qed
  have t: "truthy (JStr ''b'')" by simp
  have kf: "public_key_of ?f (trace (after_first ''2''))
        (key_request ?f ''http://server:5000/api'' (org 2 (JStr ''b''))) = Inl (Raised ''Timeout'')"
    by (rule flaky_later)
  have kc: "public_key_of ?c (trace (after_first ''2''))
        (key_request ?c ''http://server:5000/api'' (org 3 (JStr ''b''))) = Inr JNull"
    by (simp add: key_request_org coordinator_keys)
  note a = key_lookup_failure [OF demo_ctx_sel(3) demo_server_info task_post_sel(2,1) o2 pf
      org_simps(1) t]
  note b = key_lookup_failure [OF demo_ctx_sel(3) demo_server_info task_post_sel(2,1) o3 pc
      org_simps(1) t]
  show ?thesis
    using a kf b kc by (simp add: key_request_org after_first_def)
qed

text \<open>
  C10. The test of the payload uses the truth value, not presence. An \<^verbatim>\<open>organizations\<close>
  that is present but false (the empty list, say) gives the very result of an absent one:
  no call, no response. An entry whose \<^verbatim>\<open>input\<close> is present but false (the empty
  string, 0, \<^verbatim>\<open>false\<close>) gives the very result of the same list with an entry without
  \<^verbatim>\<open>input\<close> in its place: the request aborts, the only calls are key lookups of
  entries before it, and no task is forwarded.
\<close>

theorem falsy_treated_as_absent:
  "(map_of kv1 ''organizations'' = Some v \<and> \<not> truthy v \<and> map_of kv2 ''organizations'' = None \<longrightarrow>
      proxy_task c (rq\<lparr>req_json := Inr (JObj kv1)\<rparr>) w
        = proxy_task c (rq\<lparr>req_json := Inr (JObj kv2)\<rparr>) w
      \<and> trace (snd (proxy_task c (rq\<lparr>req_json := Inr (JObj kv1)\<rparr>) w)) = trace w
      \<and> (\<forall>j. fst (proxy_task c (rq\<lparr>req_json := Inr (JObj kv1)\<rparr>) w) \<noteq> Inr (Some j)))
   \<and> (map_of kv1 ''organizations'' = Some (JArr (pre @ JObj e1 # post))
      \<and> map_of kv2 ''organizations'' = Some (JArr (pre @ JObj e2 # post))
      \<and> map_of e1 ''input'' = Some v \<and> \<not> truthy v \<and> map_of e2 ''input'' = None \<longrightarrow>
      proxy_task c (rq\<lparr>req_json := Inr (JObj kv1)\<rparr>) w
        = proxy_task c (rq\<lparr>req_json := Inr (JObj kv2)\<rparr>) w
      \<and> (\<exists>es m u. trace (snd (proxy_task c (rq\<lparr>req_json := Inr (JObj kv1)\<rparr>) w)) = trace w @ es
            \<and> calls es = map (key_request c u) (take m pre))
      \<and> (\<forall>j. fst (proxy_task c (rq\<lparr>req_json := Inr (JObj kv1)\<rparr>) w) \<noteq> Inr (Some j)))"
proof (intro conjI impI)
  assume a: "map_of kv1 ''organizations'' = Some v \<and> \<not> truthy v \<and> map_of kv2 ''organizations'' = None"
  then show "proxy_task c (rq\<lparr>req_json := Inr (JObj kv1)\<rparr>) w
        = proxy_task c (rq\<lparr>req_json := Inr (JObj kv2)\<rparr>) w"
    by (simp add: proxy_task_def py_get_def split: option.splits sum.splits)
  have j: "req_json (rq\<lparr>req_json := Inr (JObj kv1)\<rparr>) = Inr (JObj kv1)" by simp
  have f: "case map_of kv1 ''organizations'' of None \<Rightarrow> True | Some v \<Rightarrow> \<not> truthy v"
    using a by simp
  from proxy_task_falsy [OF j f, of c w]
  show "trace (snd (proxy_task c (rq\<lparr>req_json := Inr (JObj kv1)\<rparr>) w)) = trace w"
    and "\<forall>j. fst (proxy_task c (rq\<lparr>req_json := Inr (JObj kv1)\<rparr>) w) \<noteq> Inr (Some j)"
    by auto
next
  assume b: "map_of kv1 ''organizations'' = Some (JArr (pre @ JObj e1 # post))
      \<and> map_of kv2 ''organizations'' = Some (JArr (pre @ JObj e2 # post))
      \<and> map_of e1 ''input'' = Some v \<and> \<not> truthy v \<and> map_of e2 ''input'' = None"
  then show "proxy_task c (rq\<lparr>req_json := Inr (JObj kv1)\<rparr>) w
        = proxy_task c (rq\<lparr>req_json := Inr (JObj kv2)\<rparr>) w"
    by (intro proxy_task_same_until_no_input) auto
  have j: "req_json (rq\<lparr>req_json := Inr (JObj kv1)\<rparr>) = Inr (JObj kv1)" by simp
  have l: "map_of kv1 ''organizations'' = Some (JArr (pre @ JObj e1 # post))" using b by simp
  have nu: "\<not> usable_input (JObj e1)" using b by (simp add: usable_input_def)
  then have ex: "\<exists>e \<in> set (pre @ JObj e1 # post). \<not> usable_input e" by auto
  from proxy_task_abort [OF j l ex, of c w] obtain es m u where
    es: "trace (snd (proxy_task c (rq\<lparr>req_json := Inr (JObj kv1)\<rparr>) w)) = trace w @ es"
      "calls es = map (key_request c u) (take m (takeWhile usable_input (pre @ JObj e1 # post)))"
      "\<forall>j. fst (proxy_task c (rq\<lparr>req_json := Inr (JObj kv1)\<rparr>) w) \<noteq> Inr (Some j)" by blast
  from takeWhile_stops [where P = usable_input, OF nu] obtain n where
    "takeWhile usable_input (pre @ JObj e1 # post) = take n pre" by blast
  then have "take m (takeWhile usable_input (pre @ JObj e1 # post)) = take (min m n) pre"
    by simp
  with es(1,2) show "\<exists>es m u. trace (snd (proxy_task c (rq\<lparr>req_json := Inr (JObj kv1)\<rparr>) w)) = trace w @ es
            \<and> calls es = map (key_request c u) (take m pre)" by metis
  from es(3) show "\<forall>j. fst (proxy_task c (rq\<lparr>req_json := Inr (JObj kv1)\<rparr>) w) \<noteq> Inr (Some j)" .
qed

text \<open>An empty \<^verbatim>\<open>organizations\<close> list, and a second entry with the empty string as
  its input.\<close>

theorem falsy_treated_as_absent_witness:
  "proxy_task (demo_ctx coordinator)
      (task_post []\<lparr>req_json := Inr (JObj (task_payload []))\<rparr>) empty_world
     = proxy_task (demo_ctx coordinator)
      (task_post []\<lparr>req_json := Inr (JObj [(''name'', JStr ''sum'')])\<rparr>) empty_world
   \<and> trace (snd (proxy_task (demo_ctx coordinator)
      (task_post []\<lparr>req_json := Inr (JObj (task_payload []))\<rparr>) empty_world)) = []
   \<and> proxy_task (demo_ctx coordinator)
      (task_post []\<lparr>req_json := Inr (JObj (task_payload
          [org 1 (JStr ''a''), org 2 (JStr ''''), org 2 (JStr ''b'')]))\<rparr>) empty_world
     = proxy_task (demo_ctx coordinator)
      (task_post []\<lparr>req_json := Inr (JObj (task_payload
          [org 1 (JStr ''a''), JObj [(''id'', JNum 2)], org 2 (JStr ''b'')]))\<rparr>) empty_world
   \<and> (\<forall>j. fst (proxy_task (demo_ctx coordinator)
      (task_post []\<lparr>req_json := Inr (JObj (task_payload
          [org 1 (JStr ''a''), org 2 (JStr ''''), org 2 (JStr ''b'')]))\<rparr>) empty_world)
        \<noteq> Inr (Some j))"
proof -
  have a: "map_of (task_payload []) ''organizations'' = Some (JArr []) \<and> \<not> truthy (JArr [])
      \<and> map_of [(''name'', JStr ''sum'')] ''organizations'' = None"
    by (simp add: task_payload_def)
  have b: "map_of (task_payload [org 1 (JStr ''a''), org 2 (JStr ''''), org 2 (JStr ''b'')])
        ''organizations''
       = Some (JArr ([org 1 (JStr ''a'')] @ JObj [(''id'', JNum 2), (''input'', JStr '''')]
                 # [org 2 (JStr ''b'')]))
     \<and> map_of (task_payload [org 1 (JStr ''a''), JObj [(''id'', JNum 2)], org 2 (JStr ''b'')])
        ''organizations''
       = Some (JArr ([org 1 (JStr ''a'')] @ JObj [(''id'', JNum 2)] # [org 2 (JStr ''b'')]))
     \<and> map_of [(''id'', JNum 2), (''input'', JStr '''')] ''input'' = Some (JStr '''')
     \<and> \<not> truthy (JStr '''')
     \<and> map_of [(''id'', JNum (2::int))] ''input'' = None"
    by (simp add: task_payload_def org_def)
  note t1 = falsy_treated_as_absent [THEN conjunct1, rule_format, OF a,
      of "demo_ctx coordinator" "task_post []" empty_world]
  note t2 = falsy_treated_as_absent [THEN conjunct2, rule_format, OF b,
      of "demo_ctx coordinator" "task_post []" empty_world]
  have e: "trace empty_world = []" by (simp add: empty_world_def)
  show ?thesis using t1 t2 unfolding e by blast
qed

subsection \<open>The generic forward without a credential\<close>

text \<open>
  C9. When the request has no \<^verbatim>\<open>Authorization\<close> header (and the relay is configured and
  the body decodes), the view still makes the outbound call, with the header value
  \<^verbatim>\<open>None\<close> (no credential: neither an empty string nor any other value is put in its
  place), and the missing header is logged.
\<close>

theorem forward_without_credential:
  assumes "server_info c = Inr url" "req_json rq = Inr body"
    and "map_of (req_headers rq) ''Authorization'' = None"
  shows "trace (snd (proxy c path rq w)) = trace w
          @ [Request \<lparr>call_verb = requests_method (lower (req_method rq)),
                      call_url = url @ ''/'' @ path,
                      call_headers = [(''Authorization'', None)],
                      call_json = body, call_params = req_args rq\<rparr>]
       \<and> Log INFO ''No authorization header found, this could lead to errors''
            \<in> set (logged (snd (proxy c path rq w)))"
proof
  show "trace (snd (proxy c path rq w)) = trace w
          @ [Request \<lparr>call_verb = requests_method (lower (req_method rq)),
                      call_url = url @ ''/'' @ path,
                      call_headers = [(''Authorization'', None)],
                      call_json = body, call_params = req_args rq\<rparr>]"
    using proxy_sends [OF assms(1,2), of path w] assms(3) by (simp add: forward_request_def)
  define w3 where "w3 = log_msg INFO (lower (req_method rq) @ '' | '' @ url @ ''/'' @ path)
      (log_msg DEBUG (''method = '' @ lower (req_method rq) @ '', auth = '' @ py_str c (JBool False))
        (log_msg INFO ''No authorization header found, this could lead to errors'' w))"
  have in3: "Log INFO ''No authorization header found, this could lead to errors'' \<in> set (logged w3)"
    by (simp add: w3_def)
  define cl where "cl = forward_request (requests_method (lower (req_method rq)))
      (url @ ''/'' @ path) body (req_args rq) None"
  have p: "proxy c path rq w =
    (case send c (trace w3) cl of
       Inl e \<Rightarrow> (Inr None, log_exc DEBUG e
           (log_msg ERROR ''Proxyserver was unable to retreive endpoint...'' (emit (Request cl) w3)))
     | Inr response \<Rightarrow>
        (case log_status c response (emit (Request cl) w3) of
           (Raise f, w4) \<Rightarrow> (Inl f, w4)
         | (Return v, w4) \<Rightarrow> (Inr v, w4)
         | (Next u, w4) \<Rightarrow> reply (Some response) w4))"
    using assms by (simp add: proxy_def Let_def w3_def cl_def split: sum.splits prod.splits flow.splits)
  show "Log INFO ''No authorization header found, this could lead to errors''
            \<in> set (logged (snd (proxy c path rq w)))"
  proof (cases "send c (trace w3) cl")
    case (Inl e)
    then show ?thesis using in3 by (simp add: p)
  next
    case (Inr response)
    obtain x w4 where ls: "log_status c response (emit (Request cl) w3) = (x, w4)" by fastforce
    from log_status_world(2) [of "emit (Request cl) w3" c response] ls in3
    have "Log INFO ''No authorization header found, this could lead to errors'' \<in> set (logged w4)"
      by auto
    then show ?thesis by (cases x) (simp_all add: p Inr ls)
  qed
qed

text \<open>A GET without the header.\<close>

theorem forward_without_credential_witness:
  "trace (snd (proxy (demo_ctx coordinator) ''collaboration'' bare_get empty_world))
     = [Request \<lparr>call_verb = Get, call_url = ''http://server:5000/api/collaboration'',
          call_headers = [(''Authorization'', None)], call_json = JNull,
          call_params = [(''page'', ''2'')]\<rparr>]
   \<and> Log INFO ''No authorization header found, this could lead to errors''
        \<in> set (logged (snd (proxy (demo_ctx coordinator) ''collaboration'' bare_get empty_world)))"
proof -
  have j: "req_json bare_get = Inr JNull" by (simp add: bare_get_def)
  have a: "map_of (req_headers bare_get) ''Authorization'' = None" by (simp add: bare_get_def)
  have m: "requests_method (lower (req_method bare_get)) = Get"
    by (simp add: bare_get_def lower_GET requests_method_def)
  have r: "req_args bare_get = [(''page'', ''2'')]" by (simp add: bare_get_def)
  have e: "trace empty_world = []" by (simp add: empty_world_def)
  from forward_without_credential [OF demo_server_info j a, of coordinator "''collaboration''" empty_world]
  show ?thesis unfolding m r e by simp
qed

end
